theory Spec2Isabelle
  imports Complex_Main
begin

section \<open>JavaScript values used by the program\<close>

text \<open>
  The program is \<^verbatim>\<open>static/js/main.js\<close>: the class \<^verbatim>\<open>PyPowerDataAdapter\<close> (pure
  functions over a JSON payload) and the class \<^verbatim>\<open>PowerFlowVisualization\<close>, whose field
  \<^verbatim>\<open>this.state\<close> holds the node and link arrays, the selection and the link-creation mode.

  A JSON field that may be absent is an \<open>option\<close>; \<open>None\<close> is JavaScript's
  \<^verbatim>\<open>undefined\<close>. Numbers are the finite numbers JSON can carry, taken as reals (the
  program only tests them for zero and sign and copies them). The operator \<^verbatim>\<open>||\<close>
  yields its left operand when that is truthy, and its right operand otherwise; a number is
  truthy when it is not zero, a string when it is not empty.
\<close>

datatype error = TypeError | InvalidDataFormat

definition truthyNum :: "real option \<Rightarrow> bool" where
  "truthyNum v = (case v of Some r \<Rightarrow> r \<noteq> 0 | None \<Rightarrow> False)"

definition truthyStr :: "string option \<Rightarrow> bool" where
  "truthyStr v = (case v of Some s \<Rightarrow> s \<noteq> [] | None \<Rightarrow> False)"

definition orNum :: "real option \<Rightarrow> real option \<Rightarrow> real option" where
  "orNum a b = (if truthyNum a then a else b)"

definition orStr :: "string option \<Rightarrow> string option \<Rightarrow> string option" where
  "orStr a b = (if truthyStr a then a else b)"

definition orDefault :: "real option \<Rightarrow> real \<Rightarrow> real" where
  "orDefault a d = (case a of Some r \<Rightarrow> (if r \<noteq> 0 then r else d) | None \<Rightarrow> d)"

text \<open>The decimal form of a non-negative integer, as a template string prints it.\<close>

function toStringNat :: "nat \<Rightarrow> string" where
  "toStringNat n =
     (if n < 10 then [char_of (48 + n)]
      else toStringNat (n div 10) @ [char_of (48 + n mod 10)])"
  by pat_completeness auto
termination
  by (relation "measure (\<lambda>n. n)") auto

declare toStringNat.simps [simp del]

section \<open>Payloads\<close>

text \<open>
  A raw node and a raw link of a payload, with the fields the adapter reads. The field
  \<^verbatim>\<open>id\<close> of a node is called \<open>node_id\<close>, the fields \<^verbatim>\<open>from\<close> and \<^verbatim>\<open>to\<close> of a raw
  link are called \<open>link_from\<close> and \<open>link_to\<close>. The bus numbers \<^verbatim>\<open>bus_i\<close> and
  \<^verbatim>\<open>bus\<close> and the code \<^verbatim>\<open>bus_type\<close> are integers; the endpoints of a raw link are
  taken as strings.
\<close>

record raw_node =
  node_id :: "string option"
  bus_i :: "nat option"
  bus :: "nat option"
  voltage :: "real option"
  vm :: "real option"
  angle :: "real option"
  va :: "real option"
  active_power :: "real option"
  pd :: "real option"
  reactive_power :: "real option"
  qd :: "real option"
  type :: "string option"
  bus_type :: "int option"
  x :: "real option"
  y :: "real option"

record raw_link =
  source :: "string option"
  fbus :: "string option"
  link_from :: "string option"
  target :: "string option"
  tbus :: "string option"
  link_to :: "string option"
  resistance :: "real option"
  r :: "real option"
  reactance :: "real option"
  x :: "real option"
  active_power :: "real option"
  pf :: "real option"
  reactive_power :: "real option"
  qf :: "real option"

section \<open>Entities\<close>

text \<open>
  A node object as the adapter, the sample data and \<^verbatim>\<open>addNode\<close> build it.
\<close>

record node =
  node_id :: string
  type :: string
  x :: real
  y :: real
  voltage :: real
  angle :: real
  active_power :: real
  reactive_power :: real

text \<open>
  Node objects live in a heap and are named by their address, so that two references are
  the same object instance exactly when the addresses are equal. A link endpoint is what
  \<^verbatim>\<open>link.source\<close> / \<^verbatim>\<open>link.target\<close> can hold: an id string, a reference to a node
  object, or \<^verbatim>\<open>undefined\<close> (what \<^verbatim>\<open>Array.prototype.find\<close> returns when nothing
  matches).
\<close>

type_synonym addr = nat

datatype endpoint = Str string | Ref addr | Undefined

record link =
  source :: endpoint
  target :: endpoint
  resistance :: real
  reactance :: real
  active_power :: real
  reactive_power :: real

section \<open>The data adapter (class PyPowerDataAdapter)\<close>

record payload =
  nodes :: "raw_node list"
  links :: "raw_link list"

record converted =
  caseType :: string
  nodes :: "node list"
  links :: "link list"
  nodeCount :: nat
  linkCount :: nat

definition busTypeMapping :: "(int \<times> string) list" where
  "busTypeMapping = [(1, ''slack''), (2, ''pv''), (3, ''load'')]"

definition detectCaseType :: "payload \<Rightarrow> string" where
  "detectCaseType data =
     (let nodeCount = length (payload.nodes data) in
      if nodeCount \<le> 9 then ''case9''
      else if nodeCount \<le> 14 then ''case14''
      else if nodeCount \<le> 30 then ''case30''
      else if nodeCount \<le> 39 then ''case39''
      else if nodeCount \<le> 57 then ''case57''
      else if nodeCount \<le> 118 then ''case118''
      else ''custom'')"

definition gt0 :: "real option \<Rightarrow> bool" where
  "gt0 v = (case v of Some p \<Rightarrow> p > 0 | None \<Rightarrow> False)"

definition lt0 :: "real option \<Rightarrow> bool" where
  "lt0 v = (case v of Some p \<Rightarrow> p < 0 | None \<Rightarrow> False)"

text \<open>
  \<^verbatim>\<open>determineNodeType(node, caseType)\<close>, lines 100-122. It is called on the raw node, so
  the power heuristic reads the raw node's fields \<^verbatim>\<open>active_power\<close> and \<^verbatim>\<open>voltage\<close>.
\<close>

definition determineNodeType :: "raw_node \<Rightarrow> string \<Rightarrow> string" where
  "determineNodeType n ct =
     (if truthyStr (raw_node.type n) then (case raw_node.type n of Some t \<Rightarrow> t | None \<Rightarrow> [])
      else if bus_type n \<noteq> None then
        (case bus_type n of
           Some k \<Rightarrow> (case map_of busTypeMapping k of Some t \<Rightarrow> t | None \<Rightarrow> ''load'')
         | None \<Rightarrow> ''load'')
      else if gt0 (raw_node.active_power n) \<and> raw_node.voltage n \<noteq> None then ''pv''
      else if gt0 (raw_node.active_power n) then ''generator''
      else if lt0 (raw_node.active_power n) then ''load''
      else ''load'')"


text \<open>
  \<^verbatim>\<open>generateCircularLayout(nodeCount, centerX, centerY, radius)\<close>, lines 184-194: the
  object with the keys \<^verbatim>\<open>bus1\<close> ... \<^verbatim>\<open>bus<nodeCount>\<close>, as the list of its entries.
  Coordinates are pairs \<open>(x, y)\<close>; cosine and sine are those of the reals.
\<close>

definition generateCircularLayout ::
  "nat \<Rightarrow> real \<Rightarrow> real \<Rightarrow> real \<Rightarrow> (string \<times> (real \<times> real)) list" where
  "generateCircularLayout count centerX centerY radius =
     map (\<lambda>i. (''bus'' @ toStringNat i,
               (centerX + radius * cos ((2 * pi * (real i - 1)) / real count),
                centerY + radius * sin ((2 * pi * (real i - 1)) / real count))))
       [1..<Suc count]"

text \<open>
  \<^verbatim>\<open>String.prototype.replace\<close> with a string pattern replaces the first occurrence.
\<close>

fun replaceFirst :: "string \<Rightarrow> string \<Rightarrow> string \<Rightarrow> string" where
  "replaceFirst pat rep [] = (if pat = [] then rep else [])"
| "replaceFirst pat rep (c # cs) =
     (if take (length pat) (c # cs) = pat then rep @ drop (length pat) (c # cs)
      else c # replaceFirst pat rep cs)"

text \<open>
  \<^verbatim>\<open>parseInt(string)\<close> with no radix: leading white space is skipped (the ASCII white
  space here), a sign is read, a prefix \<^verbatim>\<open>0x\<close> or \<^verbatim>\<open>0X\<close> selects radix 16, and the
  longest run of digits is the value; no digit at all gives \<^verbatim>\<open>NaN\<close>, which is \<open>None\<close>.
\<close>

definition isWhiteSpace :: "char \<Rightarrow> bool" where
  "isWhiteSpace c = (of_char c \<in> {9, 10, 11, 12, 13, 32 :: nat})"

definition digitValue :: "char \<Rightarrow> nat option" where
  "digitValue c =
     (let k = (of_char c :: nat) in
      if 48 \<le> k \<and> k \<le> 57 then Some (k - 48)
      else if 97 \<le> k \<and> k \<le> 122 then Some (k - 87)
      else if 65 \<le> k \<and> k \<le> 90 then Some (k - 55)
      else None)"

definition isDigit :: "nat \<Rightarrow> char \<Rightarrow> bool" where
  "isDigit R c = (case digitValue c of Some v \<Rightarrow> v < R | None \<Rightarrow> False)"

definition parseInt :: "string \<Rightarrow> int option" where
  "parseInt str =
     (let S = dropWhile isWhiteSpace str;
          neg = (case S of c # cs \<Rightarrow> c = CHR ''-'' | [] \<Rightarrow> False);
          S1 = (case S of c # cs \<Rightarrow> (if c = CHR ''+'' \<or> c = CHR ''-'' then cs else S) | [] \<Rightarrow> S);
          hex = (take 2 S1 = ''0x'' \<or> take 2 S1 = ''0X'');
          R = (if hex then 16 else 10);
          S2 = (if hex then drop 2 S1 else S1);
          Z = takeWhile (isDigit R) S2
      in if Z = [] then None
         else Some ((if neg then - 1 else 1) *
                int (foldl (\<lambda>acc c. acc * R + (case digitValue c of Some v \<Rightarrow> v | None \<Rightarrow> 0)) 0 Z)))"

text \<open>\<^verbatim>\<open>generateCircularLayoutForNode\<close>, lines 205-212.\<close>

definition generateCircularLayoutForNode ::
  "string \<Rightarrow> nat \<Rightarrow> real \<Rightarrow> real \<Rightarrow> real \<Rightarrow> real \<times> real" where
  "generateCircularLayoutForNode nodeId totalNodes centerX centerY radius =
     (let nodeIndex = (case parseInt (replaceFirst ''bus'' [] nodeId) of
                         Some k \<Rightarrow> (if k \<noteq> 0 then k else 1)
                       | None \<Rightarrow> 1);
          ang = (2 * pi * (real_of_int nodeIndex - 1)) / real totalNodes
      in (centerX + radius * cos ang, centerY + radius * sin ang))"

text \<open>\<^verbatim>\<open>generateNodeCoordinates\<close>, lines 131-174, with its table of layouts.\<close>

definition predefinedLayouts :: "(string \<times> (string \<times> (real \<times> real)) list) list" where
  "predefinedLayouts =
     [(''case9'',
        [(''bus1'', (100, 150)), (''bus2'', (200, 100)), (''bus3'', (200, 200)),
         (''bus4'', (300, 50)), (''bus5'', (300, 150)), (''bus6'', (300, 250)),
         (''bus7'', (400, 100)), (''bus8'', (400, 200)), (''bus9'', (500, 150))]),
      (''case14'',
        [(''bus1'', (100, 200)), (''bus2'', (200, 150)), (''bus3'', (200, 250)),
         (''bus4'', (300, 100)), (''bus5'', (300, 200)), (''bus6'', (300, 300)),
         (''bus7'', (400, 150)), (''bus8'', (400, 250)), (''bus9'', (500, 100)),
         (''bus10'', (500, 200)), (''bus11'', (500, 300)), (''bus12'', (600, 150)),
         (''bus13'', (600, 250)), (''bus14'', (700, 200))]),
      (''case30'', generateCircularLayout 30 400 300 80)]"

definition generateNodeCoordinates :: "string \<Rightarrow> string \<Rightarrow> nat \<Rightarrow> real \<times> real" where
  "generateNodeCoordinates nodeId ct totalNodes =
     (case map_of predefinedLayouts ct of
        Some layout \<Rightarrow>
          (case map_of layout nodeId of
             Some coords \<Rightarrow> coords
           | None \<Rightarrow> generateCircularLayoutForNode nodeId totalNodes 400 300 80)
      | None \<Rightarrow> generateCircularLayoutForNode nodeId totalNodes 400 300 80)"

text \<open>
  \<^verbatim>\<open>normalizeNodes(nodes, caseType)\<close>, lines 53-73, for one node. The object literal of
  lines 55-62 has the properties id, voltage, angle, active_power, reactive_power and type
  and no property x or y, so the test \<^verbatim>\<open>!normalizedNode.x || !normalizedNode.y\<close> of
  line 65 reads two absent properties: \<open>normalized_x\<close> and \<open>normalized_y\<close> below. The random
  suffix \<^verbatim>\<open>Math.random().toString(36).substr(2, 9)\<close> of the id of the \<open>k\<close>-th node is the
  parameter \<open>rnd k\<close>; \<open>numberOr v d\<close> and \<open>stringOr v d\<close> are \<^verbatim>\<open>v || d\<close> as a string, for
  a number and for a string \<open>v\<close>.
\<close>

definition numberOr :: "nat option \<Rightarrow> string \<Rightarrow> string" where
  "numberOr v d = (case v of Some b \<Rightarrow> (if b \<noteq> 0 then toStringNat b else d) | None \<Rightarrow> d)"

definition stringOr :: "string option \<Rightarrow> string \<Rightarrow> string" where
  "stringOr v d = (case v of Some s \<Rightarrow> (if s \<noteq> [] then s else d) | None \<Rightarrow> d)"

definition normalizeNode :: "(nat \<Rightarrow> string) \<Rightarrow> string \<Rightarrow> nat \<Rightarrow> nat \<Rightarrow> raw_node \<Rightarrow> node" where
  "normalizeNode rnd ct totalNodes k n =
     (let nid = stringOr (raw_node.node_id n)
                  (''bus'' @ numberOr (bus_i n) (numberOr (bus n) (rnd k)));
          normalized_x = (None :: real option);
          normalized_y = (None :: real option);
          coords = (if \<not> truthyNum normalized_x \<or> \<not> truthyNum normalized_y
                    then generateNodeCoordinates nid ct totalNodes
                    else (case (normalized_x, normalized_y) of
                            (Some a, Some b) \<Rightarrow> (a, b)
                          | _ \<Rightarrow> generateNodeCoordinates nid ct totalNodes))
      in \<lparr>node_id = nid,
          type = determineNodeType n ct,
          x = fst coords,
          y = snd coords,
          voltage = orDefault (orNum (raw_node.voltage n) (vm n)) 1.0,
          angle = orDefault (orNum (raw_node.angle n) (va n)) 0.0,
          active_power = orDefault (orNum (raw_node.active_power n) (pd n)) 0,
          reactive_power = orDefault (orNum (raw_node.reactive_power n) (qd n)) 0\<rparr>)"

definition normalizeNodes :: "(nat \<Rightarrow> string) \<Rightarrow> raw_node list \<Rightarrow> string \<Rightarrow> node list" where
  "normalizeNodes rnd ns ct =
     map (\<lambda>(k, n). normalizeNode rnd ct (length ns) k n) (zip [0..<length ns] ns)"

text \<open>\<^verbatim>\<open>normalizeLinks(links, caseType)\<close>, lines 81-92.\<close>

definition toEndpoint :: "string option \<Rightarrow> endpoint" where
  "toEndpoint v = (case v of Some s \<Rightarrow> Str s | None \<Rightarrow> Undefined)"

definition normalizeLink :: "raw_link \<Rightarrow> link" where
  "normalizeLink l =
     \<lparr>source = toEndpoint (orStr (orStr (raw_link.source l) (fbus l)) (link_from l)),
      target = toEndpoint (orStr (orStr (raw_link.target l) (tbus l)) (link_to l)),
      resistance = orDefault (orNum (raw_link.resistance l) (r l)) 0.01,
      reactance = orDefault (orNum (raw_link.reactance l) (raw_link.x l)) 0.05,
      active_power = orDefault (orNum (raw_link.active_power l) (pf l)) 0,
      reactive_power = orDefault (orNum (raw_link.reactive_power l) (qf l)) 0\<rparr>"

definition normalizeLinks :: "raw_link list \<Rightarrow> string \<Rightarrow> link list" where
  "normalizeLinks ls ct = map normalizeLink ls"

text \<open>
  \<^verbatim>\<open>validateData(data)\<close>, lines 219-235, on a payload whose \<^verbatim>\<open>nodes\<close> and
  \<^verbatim>\<open>links\<close> are arrays, and \<^verbatim>\<open>convertData(rawData)\<close>, lines 242-260, without the time
  stamp of its metadata.
\<close>

definition validateData :: "payload \<Rightarrow> bool" where
  "validateData data =
     (list_all (\<lambda>n. truthyStr (raw_node.node_id n)) (payload.nodes data)
      \<and> list_all (\<lambda>l. truthyStr (raw_link.source l) \<and> truthyStr (raw_link.target l))
           (payload.links data))"

definition convertData :: "(nat \<Rightarrow> string) \<Rightarrow> payload \<Rightarrow> error + converted" where
  "convertData rnd rawData =
     (if \<not> validateData rawData then Inl InvalidDataFormat
      else
        (let ct = detectCaseType rawData in
         Inr \<lparr>caseType = ct,
              nodes = normalizeNodes rnd (payload.nodes rawData) ct,
              links = normalizeLinks (payload.links rawData) ct,
              nodeCount = length (payload.nodes rawData),
              linkCount = length (payload.links rawData)\<rparr>))"

section \<open>The application state (class PowerFlowVisualization)\<close>

text \<open>
  A link object of \<^verbatim>\<open>this.state.links\<close> is a link together with its identity \<open>lref\<close>
  (two references are the same link object exactly when the identities are equal; the test
  \<^verbatim>\<open>link === d\<close> of the view compares them).
\<close>

record link_obj = link +
  lref :: nat

text \<open>
  What \<^verbatim>\<open>showNotification\<close> is called with: each constructor is one message of the
  source.
\<close>

datatype notification =
    ErrorSelfLink
  | ErrorLinkExists
  | ErrorFlowFailed
  | InfoStartLinkCreation
  | InfoSourceSelected string
  | SuccessLinkAdded string string
  | SuccessNodeAdded string
  | SuccessNodeDeleted string
  | SuccessFlowDone

text \<open>
  The fields of \<^verbatim>\<open>this.state\<close> that the topology and the interaction handlers read
  and write. \<open>nheap\<close> is the heap of node objects, \<open>nextAddr\<close> and \<open>nextRef\<close> are the
  next unused node address and link identity (a new object is distinct from every
  existing one), and \<open>shown\<close> is the sequence of notifications shown so far. The d3
  selections, the simulation, the charts and the DOM are not part of the model.
\<close>

record state =
  nheap :: "addr \<Rightarrow> node"
  nextAddr :: addr
  nextRef :: nat
  nodes :: "addr list"
  links :: "link_obj list"
  selectedNode :: "string option"
  selectedLink :: "nat option"
  linkCreationMode :: bool
  selectedLinkSource :: "addr option"
  shown :: "notification list"

text \<open>
  A handler either runs to its end or throws; the state it has written by then stays
  written in both cases.
\<close>

datatype outcome = Done state | Thrown error state

definition stateOf :: "outcome \<Rightarrow> state" where
  "stateOf out = (case out of Done s \<Rightarrow> s | Thrown e s \<Rightarrow> s)"

definition showNotification :: "notification \<Rightarrow> state \<Rightarrow> state" where
  "showNotification m s = s\<lparr>shown := shown s @ [m]\<rparr>"

text \<open>
  The state the constructor builds (lines 265-285) and \<^verbatim>\<open>useSampleData\<close>
  (lines 484-570). No node object is allocated yet in the initial heap; an address that
  holds no object reads as \<open>noNode\<close>.
\<close>

definition noNode :: node where
  "noNode = \<lparr>node_id = [], type = [], x = 0, y = 0, voltage = 0, angle = 0,
             active_power = 0, reactive_power = 0\<rparr>"

definition initialState :: state where
  "initialState =
     \<lparr>nheap = (\<lambda>a. noNode), nextAddr = 0, nextRef = 0, nodes = [], links = [],
      selectedNode = None, selectedLink = None, linkCreationMode = False,
      selectedLinkSource = None, shown = []\<rparr>"

definition useSampleData :: "state \<Rightarrow> state" where
  "useSampleData s =
     s\<lparr>nheap := (nheap s)
          (nextAddr s :=
             \<lparr>node_id = ''bus1'', type = ''generator'', x = 100, y = 150, voltage = 1.0,
              angle = 0.0, active_power = 100, reactive_power = 50\<rparr>,
           nextAddr s + 1 :=
             \<lparr>node_id = ''bus2'', type = ''load'', x = 300, y = 100, voltage = 0.98,
              angle = - 2.0, active_power = - 80, reactive_power = - 30\<rparr>,
           nextAddr s + 2 :=
             \<lparr>node_id = ''bus3'', type = ''load'', x = 300, y = 200, voltage = 0.97,
              angle = - 3.0, active_power = - 60, reactive_power = - 20\<rparr>,
           nextAddr s + 3 :=
             \<lparr>node_id = ''bus4'', type = ''generator'', x = 500, y = 150, voltage = 1.02,
              angle = 1.0, active_power = 50, reactive_power = 20\<rparr>),
       nextAddr := nextAddr s + 4,
       nodes := [nextAddr s, nextAddr s + 1, nextAddr s + 2, nextAddr s + 3],
       links :=
         [\<lparr>source = Str ''bus1'', target = Str ''bus2'', resistance = 0.01,
           reactance = 0.05, active_power = 85, reactive_power = 35, lref = nextRef s\<rparr>,
          \<lparr>source = Str ''bus1'', target = Str ''bus3'', resistance = 0.015,
           reactance = 0.06, active_power = 75, reactive_power = 30, lref = nextRef s + 1\<rparr>,
          \<lparr>source = Str ''bus2'', target = Str ''bus4'', resistance = 0.012,
           reactance = 0.04, active_power = 70, reactive_power = 25, lref = nextRef s + 2\<rparr>,
          \<lparr>source = Str ''bus3'', target = Str ''bus4'', resistance = 0.01,
           reactance = 0.05, active_power = 65, reactive_power = 20, lref = nextRef s + 3\<rparr>],
       nextRef := nextRef s + 4\<rparr>"

subsection \<open>Reference resolution and the view update\<close>

text \<open>
  \<^verbatim>\<open>this.state.nodes.find(node => node.id === i)\<close>: the first node object of the
  array with that id.
\<close>

definition findNode :: "(addr \<Rightarrow> node) \<Rightarrow> addr list \<Rightarrow> string \<Rightarrow> addr option" where
  "findNode h ns i = List.find (\<lambda>a. node_id (h a) = i) ns"

text \<open>
  One endpoint in the loop of \<^verbatim>\<open>updateVisualization\<close>, lines 1491-1498 (and 1501-1508
  for the target). An object endpoint with a truthy id is replaced by the matching node
  object when there is one and it is another object; a string endpoint is replaced by
  the result of \<^verbatim>\<open>find\<close>, which is \<^verbatim>\<open>undefined\<close> when no node has that id.
\<close>

definition resolveEndpoint :: "(addr \<Rightarrow> node) \<Rightarrow> addr list \<Rightarrow> endpoint \<Rightarrow> endpoint" where
  "resolveEndpoint h ns e =
     (case e of
        Ref a \<Rightarrow>
          (if node_id (h a) \<noteq> [] then
             (case findNode h ns (node_id (h a)) of
                Some matchedNode \<Rightarrow> (if matchedNode \<noteq> a then Ref matchedNode else Ref a)
              | None \<Rightarrow> Ref a)
           else Ref a)
      | Str i \<Rightarrow> (case findNode h ns i of Some matchedNode \<Rightarrow> Ref matchedNode | None \<Rightarrow> Undefined)
      | Undefined \<Rightarrow> Undefined)"

definition resolveLink :: "(addr \<Rightarrow> node) \<Rightarrow> addr list \<Rightarrow> link_obj \<Rightarrow> link_obj" where
  "resolveLink h ns l =
     l\<lparr>source := resolveEndpoint h ns (source l), target := resolveEndpoint h ns (target l)\<rparr>"

text \<open>
  \<^verbatim>\<open>updateVisualization()\<close>, lines 1487-1574. The loop of lines 1489-1509 rewrites the
  endpoints of every link object in place. The d3 joins that follow write no modelled
  field; they read \<^verbatim>\<open>d.source.id\<close>, \<^verbatim>\<open>d.source.x\<close>, \<^verbatim>\<open>d.target.x\<close> of every link
  (lines 1513-1540), which throws a TypeError when an endpoint is \<^verbatim>\<open>undefined\<close>.
\<close>

definition drawable :: "link_obj \<Rightarrow> bool" where
  "drawable l = (source l \<noteq> Undefined \<and> target l \<noteq> Undefined)"

definition updateVisualization :: "state \<Rightarrow> outcome" where
  "updateVisualization s =
     (let s1 = s\<lparr>links := map (resolveLink (nheap s) (nodes s)) (links s)\<rparr>
      in if list_all drawable (links s1) then Done s1 else Thrown TypeError s1)"

subsection \<open>Links\<close>

text \<open>
  The value of \<^verbatim>\<open>link.source.id || link.source\<close> (lines 1996, 2242): the id of an object
  endpoint when that id is truthy, the object itself when it is not, the string of a string
  endpoint; reading \<^verbatim>\<open>.id\<close> of \<^verbatim>\<open>undefined\<close> throws.
\<close>

datatype idval = IdStr string | NodeObj addr

definition endpointId :: "(addr \<Rightarrow> node) \<Rightarrow> endpoint \<Rightarrow> error + idval" where
  "endpointId h e =
     (case e of
        Str i \<Rightarrow> Inr (IdStr i)
      | Ref a \<Rightarrow> (if node_id (h a) \<noteq> [] then Inr (IdStr (node_id (h a))) else Inr (NodeObj a))
      | Undefined \<Rightarrow> Inl TypeError)"

text \<open>\<^verbatim>\<open>addLink(sourceId, targetId)\<close>, lines 2018-2032.\<close>

definition addLink :: "state \<Rightarrow> string \<Rightarrow> string \<Rightarrow> outcome" where
  "addLink s sourceId targetId =
     (let newLink = \<lparr>source = Str sourceId, target = Str targetId, resistance = 0.01,
                     reactance = 0.1, active_power = 75, reactive_power = 30,
                     lref = nextRef s\<rparr>;
          s1 = s\<lparr>links := links s @ [newLink], nextRef := Suc (nextRef s)\<rparr>
      in case updateVisualization s1 of
           Thrown e s2 \<Rightarrow> Thrown e s2
         | Done s2 \<Rightarrow> Done (showNotification (SuccessLinkAdded sourceId targetId) s2))"

text \<open>
  \<^verbatim>\<open>startLinkCreation\<close> and \<^verbatim>\<open>cancelLinkCreation\<close>, lines 1939-1972, and the search
  for an existing link of lines 1995-2002: \<^verbatim>\<open>find\<close> stops at the first link that
  matches, and a link with an \<^verbatim>\<open>undefined\<close> endpoint before it makes the callback throw.
\<close>

definition startLinkCreation :: "state \<Rightarrow> state" where
  "startLinkCreation s =
     showNotification InfoStartLinkCreation (s\<lparr>linkCreationMode := True, selectedLinkSource := None\<rparr>)"

definition cancelLinkCreation :: "state \<Rightarrow> state" where
  "cancelLinkCreation s = s\<lparr>linkCreationMode := False, selectedLinkSource := None\<rparr>"

fun existingLink ::
  "(addr \<Rightarrow> node) \<Rightarrow> string \<Rightarrow> string \<Rightarrow> link_obj list \<Rightarrow> error + link_obj option" where
  "existingLink h a b [] = Inr None"
| "existingLink h a b (l # ls) =
     (case endpointId h (source l) of
        Inl e \<Rightarrow> Inl e
      | Inr sourceId \<Rightarrow>
          (case endpointId h (target l) of
             Inl e \<Rightarrow> Inl e
           | Inr targetId \<Rightarrow>
               (if (sourceId = IdStr a \<and> targetId = IdStr b)
                   \<or> (sourceId = IdStr b \<and> targetId = IdStr a)
                then Inr (Some l)
                else existingLink h a b ls)))"

text \<open>\<^verbatim>\<open>handleNodeClickForLinkCreation(event, d)\<close>, lines 1977-2013; \<open>d\<close> is the node clicked.\<close>

definition handleNodeClickForLinkCreation :: "state \<Rightarrow> addr \<Rightarrow> outcome" where
  "handleNodeClickForLinkCreation s d =
     (if \<not> linkCreationMode s then Done s
      else
        (case selectedLinkSource s of
           None \<Rightarrow>
             Done (showNotification (InfoSourceSelected (node_id (nheap s d)))
                     (s\<lparr>selectedLinkSource := Some d\<rparr>))
         | Some a \<Rightarrow>
             (if node_id (nheap s a) = node_id (nheap s d)
              then Done (showNotification ErrorSelfLink s)
              else
                (case existingLink (nheap s) (node_id (nheap s a)) (node_id (nheap s d)) (links s) of
                   Inl e \<Rightarrow> Thrown e s
                 | Inr (Some l) \<Rightarrow> Done (showNotification ErrorLinkExists s)
                 | Inr None \<Rightarrow>
                     (case addLink s (node_id (nheap s a)) (node_id (nheap s d)) of
                        Thrown e s1 \<Rightarrow> Thrown e s1
                      | Done s1 \<Rightarrow> Done (cancelLinkCreation s1))))))"

subsection \<open>Selection\<close>

text \<open>
  \<^verbatim>\<open>clearNodeInfo\<close> (lines 1693-1725) clears both selections; \<^verbatim>\<open>displayNodeInfo\<close>
  writes no modelled field. \<^verbatim>\<open>handleNodeClick(event, d)\<close>, lines 2066-2092.
\<close>

definition clearNodeInfo :: "state \<Rightarrow> state" where
  "clearNodeInfo s = s\<lparr>selectedNode := None, selectedLink := None\<rparr>"

definition handleNodeClick :: "state \<Rightarrow> addr \<Rightarrow> outcome" where
  "handleNodeClick s d =
     (if linkCreationMode s then handleNodeClickForLinkCreation s d
      else
        (let s1 = s\<lparr>selectedNode :=
                      (if Some (node_id (nheap s d)) = selectedNode s then None
                       else Some (node_id (nheap s d))),
                    selectedLink := None\<rparr>
         in if truthyStr (selectedNode s1) then Done s1 else Done (clearNodeInfo s1)))"

text \<open>
  \<^verbatim>\<open>handleLinkClick(event, d)\<close>, lines 2115-2131, with \<^verbatim>\<open>displayLinkInfo\<close>
  (lines 2446-2486), which reads \<^verbatim>\<open>link.source.id || link.source\<close> and the same of the
  target before it sets the selected link again.
\<close>

definition handleLinkClick :: "state \<Rightarrow> link_obj \<Rightarrow> outcome" where
  "handleLinkClick s d =
     (let s1 = s\<lparr>selectedLink := Some (lref d), selectedNode := None\<rparr>
      in case endpointId (nheap s) (source d) of
           Inl e \<Rightarrow> Thrown e s1
         | Inr sourceId \<Rightarrow>
             (case endpointId (nheap s) (target d) of
                Inl e \<Rightarrow> Thrown e s1
              | Inr targetId \<Rightarrow> Done (s1\<lparr>selectedLink := Some (lref d)\<rparr>)))"

text \<open>
  A click gesture outside link creation, and a sequence of them. A handler that throws
  ends that event only: the next event finds the state as the handler left it.
\<close>

datatype gesture = NodeClick addr | LinkClick link_obj

definition gestureStep :: "state \<Rightarrow> gesture \<Rightarrow> state" where
  "gestureStep s g =
     (case g of
        NodeClick d \<Rightarrow> stateOf (handleNodeClick s d)
      | LinkClick d \<Rightarrow> stateOf (handleLinkClick s d))"

definition gestures :: "state \<Rightarrow> gesture list \<Rightarrow> state" where
  "gestures s gs = foldl gestureStep s gs"

text \<open>
  The view marks a node as selected when \<^verbatim>\<open>node.id === this.state.selectedNode\<close>
  (line 2079) and a link when it is the object clicked (line 2122).
\<close>

definition markedNodes :: "state \<Rightarrow> addr list" where
  "markedNodes s = filter (\<lambda>a. Some (node_id (nheap s a)) = selectedNode s) (nodes s)"

definition markedLinks :: "state \<Rightarrow> link_obj list" where
  "markedLinks s = filter (\<lambda>l. Some (lref l) = selectedLink s) (links s)"

subsection \<open>Nodes\<close>

text \<open>
  \<^verbatim>\<open>addNode(type)\<close>, lines 2169-2234, for the four types it has a branch for. The
  position \<open>(px, py)\<close>, computed from the size of the SVG element, the zoom transform and
  \<^verbatim>\<open>Math.random()\<close>, is a parameter.
\<close>

datatype node_kind = Slack | PV | Generator | Load

definition addNode :: "state \<Rightarrow> node_kind \<Rightarrow> real \<Rightarrow> real \<Rightarrow> outcome" where
  "addNode s kind px py =
     (let newNode =
        (case kind of
           Slack \<Rightarrow>
             \<lparr>node_id = ''slack'' @ toStringNat (length (nodes s) + 1), type = ''slack'',
              x = px, y = py, voltage = 1.0, angle = 0.0, active_power = 0, reactive_power = 0\<rparr>
         | PV \<Rightarrow>
             \<lparr>node_id = ''pv'' @ toStringNat (length (nodes s) + 1), type = ''pv'',
              x = px, y = py, voltage = 1.02, angle = 0.0, active_power = 100, reactive_power = 0\<rparr>
         | Generator \<Rightarrow>
             \<lparr>node_id = ''gen'' @ toStringNat (length (nodes s) + 1), type = ''generator'',
              x = px, y = py, voltage = 1.0, angle = 0.0, active_power = 100, reactive_power = 50\<rparr>
         | Load \<Rightarrow>
             \<lparr>node_id = ''load'' @ toStringNat (length (nodes s) + 1), type = ''load'',
              x = px, y = py, voltage = 0.98, angle = 0.0, active_power = - 50,
              reactive_power = - 20\<rparr>);
          s1 = s\<lparr>nheap := (nheap s)(nextAddr s := newNode),
                 nodes := nodes s @ [nextAddr s],
                 nextAddr := Suc (nextAddr s)\<rparr>
      in case updateVisualization s1 of
           Thrown e s2 \<Rightarrow> Thrown e s2
         | Done s2 \<Rightarrow> Done (showNotification (SuccessNodeAdded (node_id newNode)) s2))"

text \<open>
  \<^verbatim>\<open>deleteNode(nodeId)\<close>, lines 2238-2254; \<open>confirmed\<close> is the answer to the
  \<^verbatim>\<open>confirm\<close> dialogue. The callback of the \<^verbatim>\<open>filter\<close> over the links throws on an
  \<^verbatim>\<open>undefined\<close> endpoint, before anything is assigned.
\<close>

fun remainingLinks :: "(addr \<Rightarrow> node) \<Rightarrow> string \<Rightarrow> link_obj list \<Rightarrow> error + link_obj list" where
  "remainingLinks h nodeId [] = Inr []"
| "remainingLinks h nodeId (l # ls) =
     (case endpointId h (source l) of
        Inl e \<Rightarrow> Inl e
      | Inr sourceId \<Rightarrow>
          (case endpointId h (target l) of
             Inl e \<Rightarrow> Inl e
           | Inr targetId \<Rightarrow>
               (case remainingLinks h nodeId ls of
                  Inl e \<Rightarrow> Inl e
                | Inr rest \<Rightarrow>
                    Inr (if sourceId \<noteq> IdStr nodeId \<and> targetId \<noteq> IdStr nodeId
                         then l # rest else rest))))"

definition deleteNode :: "state \<Rightarrow> bool \<Rightarrow> string \<Rightarrow> outcome" where
  "deleteNode s confirmed nodeId =
     (if \<not> confirmed then Done s
      else
        (case remainingLinks (nheap s) nodeId (links s) of
           Inl e \<Rightarrow> Thrown e s
         | Inr kept \<Rightarrow>
             (let s1 = s\<lparr>links := kept,
                        nodes := filter (\<lambda>a. node_id (nheap s a) \<noteq> nodeId) (nodes s)\<rparr>;
                  s2 = (if selectedNode s1 = Some nodeId then s1\<lparr>selectedNode := None\<rparr> else s1)
              in case updateVisualization s2 of
                   Thrown e s3 \<Rightarrow> Thrown e s3
                 | Done s3 \<Rightarrow> Done (showNotification (SuccessNodeDeleted nodeId) s3))))"

subsection \<open>Power-flow results\<close>

text \<open>
  \<^verbatim>\<open>calculatePowerFlow()\<close>, lines 1400-1481, from the arrival of the response. A
  response is \<open>None\<close> when the request fails or is not ok (the handler throws before it
  assigns anything), and otherwise the parsed result: \<open>rheap\<close> is the heap once the
  response is parsed, holding the new node objects and the objects that links carry as
  endpoints, and \<open>rnextAddr\<close> and \<open>rnextRef\<close> are the next unused address and identity
  then. The statistics of the result, which only the page shows, are left out. Everything
  thrown is caught by the handler itself (lines 1470-1476).
\<close>

record flow_result =
  rheap :: "addr \<Rightarrow> node"
  rnextAddr :: addr
  rnextRef :: nat
  rnodes :: "addr list"
  rlinks :: "link_obj list"

definition calculatePowerFlow :: "state \<Rightarrow> flow_result option \<Rightarrow> state" where
  "calculatePowerFlow s response =
     (case response of
        None \<Rightarrow> showNotification ErrorFlowFailed s
      | Some result \<Rightarrow>
          (case updateVisualization
                  (s\<lparr>nheap := rheap result, nextAddr := rnextAddr result,
                     nextRef := rnextRef result, nodes := rnodes result,
                     links := rlinks result\<rparr>) of
             Done s1 \<Rightarrow> showNotification SuccessFlowDone s1
           | Thrown e s1 \<Rightarrow> showNotification ErrorFlowFailed s1))"

section \<open>Notions of the specification\<close>

text \<open>
  The ids of the nodes of the store, in the order of \<^verbatim>\<open>this.state.nodes\<close>.
\<close>

definition storeIds :: "state \<Rightarrow> string list" where
  "storeIds s = map (\<lambda>a. node_id (nheap s a)) (nodes s)"

text \<open>
  An endpoint refers to the id \<open>i\<close> when it is the id string \<open>i\<close> or a node object whose
  id is \<open>i\<close>. A link is incident to \<open>i\<close> when its source or its target refers to \<open>i\<close>,
  and it connects \<open>i\<close> and \<open>j\<close> when its endpoints refer to them in either order.
\<close>

definition refersTo :: "(addr \<Rightarrow> node) \<Rightarrow> string \<Rightarrow> endpoint \<Rightarrow> bool" where
  "refersTo h i e = (case e of Str j \<Rightarrow> j = i | Ref a \<Rightarrow> node_id (h a) = i | Undefined \<Rightarrow> False)"

definition incident :: "(addr \<Rightarrow> node) \<Rightarrow> string \<Rightarrow> link_obj \<Rightarrow> bool" where
  "incident h i l = (refersTo h i (source l) \<or> refersTo h i (target l))"

definition connects :: "(addr \<Rightarrow> node) \<Rightarrow> string \<Rightarrow> string \<Rightarrow> link_obj \<Rightarrow> bool" where
  "connects h i j l =
     ((refersTo h i (source l) \<and> refersTo h j (target l))
      \<or> (refersTo h j (source l) \<and> refersTo h i (target l)))"

text \<open>
  An endpoint is resolvable when some node of the collection has the id it refers to. A
  store is well formed when every node carries an id (a non-empty one, as
  \<^verbatim>\<open>validateData\<close> demands of a payload) and every endpoint of every link is resolvable
  (invariant 1 of the data model: no dangling reference).
\<close>

definition resolvable :: "(addr \<Rightarrow> node) \<Rightarrow> addr list \<Rightarrow> endpoint \<Rightarrow> bool" where
  "resolvable h ns e = (\<exists>a\<in>set ns. refersTo h (node_id (h a)) e)"

definition wfStore :: "state \<Rightarrow> bool" where
  "wfStore s =
     ((\<forall>a\<in>set (nodes s). node_id (nheap s a) \<noteq> [])
      \<and> (\<forall>l\<in>set (links s). resolvable (nheap s) (nodes s) (source l)
                            \<and> resolvable (nheap s) (nodes s) (target l)))"

text \<open>
  The same of a power-flow result: every node of the result carries an id, and every
  endpoint of every link of the result refers to the id of a node of the result.
\<close>

definition wfResult :: "flow_result \<Rightarrow> bool" where
  "wfResult res =
     ((\<forall>a\<in>set (rnodes res). node_id (rheap res a) \<noteq> [])
      \<and> (\<forall>l\<in>set (rlinks res). resolvable (rheap res) (rnodes res) (source l)
                               \<and> resolvable (rheap res) (rnodes res) (target l)))"

section \<open>Concrete inputs\<close>

text \<open>The raw node and the raw link that have none of the fields.\<close>

definition rawNode :: raw_node where
  "rawNode =
     \<lparr>raw_node.node_id = None, bus_i = None, bus = None, raw_node.voltage = None, vm = None,
      raw_node.angle = None, va = None, raw_node.active_power = None, pd = None,
      raw_node.reactive_power = None, qd = None, raw_node.type = None, bus_type = None,
      raw_node.x = None, raw_node.y = None\<rparr>"

definition rawLink :: raw_link where
  "rawLink =
     \<lparr>raw_link.source = None, fbus = None, link_from = None, raw_link.target = None,
      tbus = None, link_to = None, raw_link.resistance = None, r = None,
      raw_link.reactance = None, raw_link.x = None, raw_link.active_power = None, pf = None,
      raw_link.reactive_power = None, qf = None\<rparr>"

text \<open>The sample topology, installed in the initial state.\<close>

definition sampleState :: state where
  "sampleState = useSampleData initialState"

text \<open>
  A power-flow result with two new node objects, at the addresses 10 and 11, and one
  link whose source is an id string and whose target is an object of its own (address 20),
  a copy of the node \<^verbatim>\<open>bus2\<close>.
\<close>

definition flowExample :: flow_result where
  "flowExample =
     \<lparr>rheap = (\<lambda>a. noNode)
        (10 := \<lparr>node_id = ''bus1'', type = ''generator'', x = 100, y = 150, voltage = 1.0,
                angle = 0.0, active_power = 100, reactive_power = 50\<rparr>,
         11 := \<lparr>node_id = ''bus2'', type = ''load'', x = 300, y = 100, voltage = 0.97,
                angle = - 2.5, active_power = - 80, reactive_power = - 30\<rparr>,
         20 := \<lparr>node_id = ''bus2'', type = ''load'', x = 300, y = 100, voltage = 0.98,
                angle = - 2.0, active_power = - 80, reactive_power = - 30\<rparr>),
      rnextAddr = 21, rnextRef = 8,
      rnodes = [10, 11],
      rlinks = [\<lparr>source = Str ''bus1'', target = Ref 20, resistance = 0.01,
                 reactance = 0.05, active_power = 85, reactive_power = 35, lref = 7\<rparr>]\<rparr>"

text \<open>A power-flow result whose only link names a node, \<^verbatim>\<open>bus9\<close>, that it does not hold.\<close>

definition ghostResult :: flow_result where
  "ghostResult =
     \<lparr>rheap = (\<lambda>a. noNode)
        (10 := \<lparr>node_id = ''bus1'', type = ''generator'', x = 100, y = 150, voltage = 1.0,
                angle = 0.0, active_power = 100, reactive_power = 50\<rparr>),
      rnextAddr = 11, rnextRef = 8,
      rnodes = [10],
      rlinks = [\<lparr>source = Str ''bus1'', target = Str ''bus9'', resistance = 0.01,
                 reactance = 0.05, active_power = 85, reactive_power = 35, lref = 7\<rparr>]\<rparr>"

text \<open>
  The sample topology after the link-creation command and a click on the node
  \<^verbatim>\<open>bus1\<close> (address 0): link creation awaits the target.
\<close>

definition awaitingTarget :: state where
  "awaitingTarget = stateOf (handleNodeClick (startLinkCreation sampleState) 0)"

text \<open>
  On the sample topology: add a load node, add a second load node, delete the first of
  the two, add a third load node.
\<close>

definition duplicateIdRun :: state where
  "duplicateIdRun =
     stateOf (addNode
       (stateOf (deleteNode
          (stateOf (addNode (stateOf (addNode sampleState Load 0 0)) Load 0 0))
          True ''load5''))
       Load 0 0)"

text \<open>
  A payload in canonical form, whose only node carries the coordinates (10, 20), and a
  payload with a node of voltage 0 and a link of resistance 0 (as the branch from bus 1 to
  bus 4 of the case \<^verbatim>\<open>case9\<close>).
\<close>

definition canonicalPayload :: payload where
  "canonicalPayload =
     \<lparr>payload.nodes =
        [rawNode\<lparr>raw_node.node_id := Some ''bus1'', raw_node.type := Some ''generator'',
           raw_node.x := Some 10, raw_node.y := Some 20, raw_node.voltage := Some 1.02,
           raw_node.angle := Some 1.0, raw_node.active_power := Some 50,
           raw_node.reactive_power := Some 20\<rparr>],
      payload.links = []\<rparr>"

definition zeroPayload :: payload where
  "zeroPayload =
     \<lparr>payload.nodes =
        [rawNode\<lparr>raw_node.node_id := Some ''bus1'', raw_node.type := Some ''slack'',
           raw_node.voltage := Some 0, raw_node.angle := Some 0,
           raw_node.active_power := Some 0, raw_node.reactive_power := Some 0\<rparr>,
         rawNode\<lparr>raw_node.node_id := Some ''bus4'', raw_node.type := Some ''load'',
           raw_node.voltage := Some 1.0, raw_node.angle := Some 0,
           raw_node.active_power := Some 0, raw_node.reactive_power := Some 0\<rparr>],
      payload.links =
        [rawLink\<lparr>raw_link.source := Some ''bus1'', raw_link.target := Some ''bus4'',
           raw_link.resistance := Some 0, raw_link.reactance := Some 0.0576\<rparr>]\<rparr>"

section \<open>Auxiliary facts\<close>

subsection \<open>Reference resolution and the store\<close>

lemma findNode_Some: "findNode h ns i = Some a \<Longrightarrow> a \<in> set ns \<and> node_id (h a) = i"
  unfolding findNode_def by (auto simp: find_Some_iff)

lemma findNode_None: "findNode h ns i = None \<longleftrightarrow> (\<forall>a\<in>set ns. node_id (h a) \<noteq> i)"
  unfolding findNode_def by (auto simp: find_None_iff)

lemma findNode_ex: "a \<in> set ns \<Longrightarrow> \<exists>m. findNode h ns (node_id (h a)) = Some m"
  using findNode_None[of h ns "node_id (h a)"] by (cases "findNode h ns (node_id (h a))") auto

lemma resolveEndpoint_resolvable:
  assumes "\<forall>a\<in>set ns. node_id (h a) \<noteq> []" and "resolvable h ns e"
  shows "\<exists>m. resolveEndpoint h ns e = Ref m \<and> m \<in> set ns \<and> refersTo h (node_id (h m)) e
            \<and> findNode h ns (node_id (h m)) = Some m"
proof -
  from assms(2) obtain a where a: "a \<in> set ns" "refersTo h (node_id (h a)) e"
    unfolding resolvable_def by blast
  from findNode_ex[OF a(1)] obtain m where m: "findNode h ns (node_id (h a)) = Some m" by blast
  from findNode_Some[OF m] have mm: "m \<in> set ns" "node_id (h m) = node_id (h a)" by auto
  from a(1) assms(1) have ne: "node_id (h a) \<noteq> []" by blast
  show ?thesis
  proof (cases e)
    case (Str j)
    with a m mm show ?thesis by (auto simp: resolveEndpoint_def refersTo_def)
  next
    case (Ref b)
    with a m mm ne show ?thesis by (auto simp: resolveEndpoint_def refersTo_def)
  next
    case Undefined
    with a show ?thesis by (simp add: refersTo_def)
  qed
qed

lemma refersTo_resolveEndpoint:
  assumes "\<forall>a\<in>set ns. node_id (h a) \<noteq> []" and "resolvable h ns e"
  shows "refersTo h i (resolveEndpoint h ns e) = refersTo h i e"
proof -
  from resolveEndpoint_resolvable[OF assms] obtain m where
    m: "resolveEndpoint h ns e = Ref m" "refersTo h (node_id (h m)) e" by blast
  then show ?thesis by (cases e) (auto simp: refersTo_def)
qed

lemma resolvable_resolveEndpoint:
  assumes "\<forall>a\<in>set ns. node_id (h a) \<noteq> []" and "resolvable h ns e"
  shows "resolvable h ns (resolveEndpoint h ns e)"
  using resolveEndpoint_resolvable[OF assms] by (auto simp: resolvable_def refersTo_def)

lemma lref_resolveLink [simp]: "lref (resolveLink h ns l) = lref l"
  by (simp add: resolveLink_def)

lemma source_resolveLink [simp]: "source (resolveLink h ns l) = resolveEndpoint h ns (source l)"
  by (simp add: resolveLink_def)

lemma target_resolveLink [simp]: "target (resolveLink h ns l) = resolveEndpoint h ns (target l)"
  by (simp add: resolveLink_def)

lemma stateOf_updateVisualization:
  "stateOf (updateVisualization s) = s\<lparr>links := map (resolveLink (nheap s) (nodes s)) (links s)\<rparr>"
  by (simp add: updateVisualization_def stateOf_def Let_def)

lemma updateVisualization_Done:
  assumes "wfStore s"
  shows "updateVisualization s = Done (s\<lparr>links := map (resolveLink (nheap s) (nodes s)) (links s)\<rparr>)"
proof -
  have "drawable (resolveLink (nheap s) (nodes s) l)" if "l \<in> set (links s)" for l
  proof -
    from that assms have r: "resolvable (nheap s) (nodes s) (source l)" "resolvable (nheap s) (nodes s) (target l)"
      and ne: "\<forall>a\<in>set (nodes s). node_id (nheap s a) \<noteq> []"
      by (auto simp: wfStore_def)
    from resolveEndpoint_resolvable[OF ne r(1)] resolveEndpoint_resolvable[OF ne r(2)]
    show ?thesis by (auto simp: drawable_def)
  qed
  then show ?thesis
    by (simp add: updateVisualization_def Let_def list_all_iff)
qed

lemma endpointId_resolvable:
  assumes "\<forall>a\<in>set ns. node_id (h a) \<noteq> []" and "resolvable h ns e"
  shows "\<exists>j. endpointId h e = Inr (IdStr j) \<and> (\<forall>i. refersTo h i e \<longleftrightarrow> j = i)"
  using assms by (cases e) (auto simp: resolvable_def refersTo_def endpointId_def)

lemma remainingLinks_filter:
  assumes "\<forall>a\<in>set ns. node_id (h a) \<noteq> []"
      and "\<forall>l\<in>set ls. resolvable h ns (source l) \<and> resolvable h ns (target l)"
  shows "remainingLinks h i ls = Inr (filter (\<lambda>l. \<not> incident h i l) ls)"
  using assms(2)
proof (induction ls)
  case Nil
  then show ?case by simp
next
  case (Cons l ls)
  from Cons.prems have rs: "resolvable h ns (source l)" and rt: "resolvable h ns (target l)" by auto
  from endpointId_resolvable[OF assms(1) rs] obtain js where
    js: "endpointId h (source l) = Inr (IdStr js)" "\<And>i. refersTo h i (source l) \<longleftrightarrow> js = i" by blast
  from endpointId_resolvable[OF assms(1) rt] obtain jt where
    jt: "endpointId h (target l) = Inr (IdStr jt)" "\<And>i. refersTo h i (target l) \<longleftrightarrow> jt = i" by blast
  from Cons have ih: "remainingLinks h i ls = Inr (filter (\<lambda>l. \<not> incident h i l) ls)" by auto
  show ?case using js jt ih by (auto simp: incident_def)
qed

lemma existingLink_find:
  assumes "\<forall>a\<in>set ns. node_id (h a) \<noteq> []"
      and "\<forall>l\<in>set ls. resolvable h ns (source l) \<and> resolvable h ns (target l)"
  shows "existingLink h a b ls = Inr (List.find (connects h a b) ls)"
  using assms(2)
proof (induction ls)
  case Nil
  then show ?case by simp
next
  case (Cons l ls)
  from Cons.prems have rs: "resolvable h ns (source l)" and rt: "resolvable h ns (target l)" by auto
  from endpointId_resolvable[OF assms(1) rs] obtain js where
    js: "endpointId h (source l) = Inr (IdStr js)" "\<And>i. refersTo h i (source l) \<longleftrightarrow> js = i" by blast
  from endpointId_resolvable[OF assms(1) rt] obtain jt where
    jt: "endpointId h (target l) = Inr (IdStr jt)" "\<And>i. refersTo h i (target l) \<longleftrightarrow> jt = i" by blast
  from Cons have ih: "existingLink h a b ls = Inr (List.find (connects h a b) ls)" by auto
  have "connects h a b l \<longleftrightarrow> (js = a \<and> jt = b) \<or> (js = b \<and> jt = a)"
    using js(2) jt(2) by (auto simp: connects_def)
  then show ?case using js(1) jt(1) ih by auto
qed

lemma wfStore_ids: "wfStore s \<Longrightarrow> \<forall>a\<in>set (nodes s). node_id (nheap s a) \<noteq> []"
  by (simp add: wfStore_def)

lemma wfStore_links:
  "wfStore s \<Longrightarrow> \<forall>l\<in>set (links s). resolvable (nheap s) (nodes s) (source l)
                            \<and> resolvable (nheap s) (nodes s) (target l)"
  by (simp add: wfStore_def)

lemma wfStore_resolved:
  assumes "wfStore s"
  shows "wfStore (s\<lparr>links := map (resolveLink (nheap s) (nodes s)) (links s)\<rparr>)"
  using assms resolvable_resolveEndpoint[of "nodes s" "nheap s"]
  by (auto simp: wfStore_def)

lemma unresolvable_resolveEndpoint:
  assumes "\<not> resolvable h ns e"
  shows "\<not> resolvable h ns (resolveEndpoint h ns e)
       \<and> (\<forall>i. e = Str i \<longrightarrow> resolveEndpoint h ns e = Undefined)
       \<and> (\<forall>a. e = Ref a \<longrightarrow> resolveEndpoint h ns e = Ref a)"
proof (cases e)
  case (Str i)
  with assms have "findNode h ns i = None"
    by (auto simp: findNode_None resolvable_def refersTo_def)
  with Str show ?thesis by (simp add: resolveEndpoint_def resolvable_def refersTo_def)
next
  case (Ref a)
  with assms have "findNode h ns (node_id (h a)) = None"
    by (auto simp: findNode_None resolvable_def refersTo_def)
  with Ref assms show ?thesis by (simp add: resolveEndpoint_def)
next
  case Undefined
  then show ?thesis by (simp add: resolveEndpoint_def resolvable_def refersTo_def)
qed

lemma calculatePowerFlow_state:
  "nheap (calculatePowerFlow s (Some res)) = rheap res
   \<and> nodes (calculatePowerFlow s (Some res)) = rnodes res
   \<and> links (calculatePowerFlow s (Some res)) =
       map (resolveLink (rheap res) (rnodes res)) (rlinks res)
   \<and> shown (calculatePowerFlow s (Some res)) =
       shown s @ [if list_all drawable (map (resolveLink (rheap res) (rnodes res)) (rlinks res))
                  then SuccessFlowDone else ErrorFlowFailed]"
  by (simp add: calculatePowerFlow_def updateVisualization_def showNotification_def)

lemma showNotification_fields [simp]:
  "links (showNotification m s) = links s"
  "nodes (showNotification m s) = nodes s"
  "nheap (showNotification m s) = nheap s"
  "selectedNode (showNotification m s) = selectedNode s"
  "selectedLink (showNotification m s) = selectedLink s"
  "linkCreationMode (showNotification m s) = linkCreationMode s"
  "selectedLinkSource (showNotification m s) = selectedLinkSource s"
  "shown (showNotification m s) = shown s @ [m]"
  by (simp_all add: showNotification_def)

lemma stateOf_addLink:
  "links (stateOf (addLink s a b)) =
     map (resolveLink (nheap s) (nodes s)) (links s)
     @ [resolveLink (nheap s) (nodes s)
          \<lparr>source = Str a, target = Str b, resistance = 0.01, reactance = 0.1,
           active_power = 75, reactive_power = 30, lref = nextRef s\<rparr>]
   \<and> nodes (stateOf (addLink s a b)) = nodes s
   \<and> nheap (stateOf (addLink s a b)) = nheap s
   \<and> linkCreationMode (stateOf (addLink s a b)) = linkCreationMode s
   \<and> selectedLinkSource (stateOf (addLink s a b)) = selectedLinkSource s"
  by (simp add: addLink_def updateVisualization_def stateOf_def showNotification_def Let_def)

lemma addLink_outcome:
  "addLink s a b =
     (if list_all drawable (links (stateOf (addLink s a b)))
      then Done (stateOf (addLink s a b)) else Thrown TypeError (stateOf (addLink s a b)))
   \<and> shown (stateOf (addLink s a b)) =
       shown s @ (if list_all drawable (links (stateOf (addLink s a b)))
                  then [SuccessLinkAdded a b] else [])"
  by (simp add: addLink_def updateVisualization_def stateOf_def Let_def)

lemma resolvable_Str: "i \<in> set (storeIds s) \<Longrightarrow> resolvable (nheap s) (nodes s) (Str i)"
  by (auto simp: storeIds_def resolvable_def refersTo_def)

lemma addLink_Done:
  assumes wf: "wfStore s" and a: "a \<in> set (storeIds s)" and b: "b \<in> set (storeIds s)"
  shows "addLink s a b =
     Done (showNotification (SuccessLinkAdded a b)
       (s\<lparr>links := map (resolveLink (nheap s) (nodes s))
             (links s @ [\<lparr>source = Str a, target = Str b, resistance = 0.01, reactance = 0.1,
                          active_power = 75, reactive_power = 30, lref = nextRef s\<rparr>]),
          nextRef := Suc (nextRef s)\<rparr>))"
proof -
  let ?new = "\<lparr>source = Str a, target = Str b, resistance = 0.01, reactance = 0.1,
               active_power = 75, reactive_power = 30, lref = nextRef s\<rparr>"
  let ?s1 = "s\<lparr>links := links s @ [?new], nextRef := Suc (nextRef s)\<rparr>"
  have "wfStore ?s1"
    using wf resolvable_Str[OF a] resolvable_Str[OF b] by (auto simp: wfStore_def)
  from updateVisualization_Done[OF this] show ?thesis
    by (simp add: addLink_def showNotification_def)
qed

lemma wfStore_sampleState: "wfStore sampleState"
  by (simp add: sampleState_def useSampleData_def initialState_def wfStore_def resolvable_def
      refersTo_def)

lemma incident_resolveLink:
  assumes "\<forall>a\<in>set ns. node_id (h a) \<noteq> []"
      and "resolvable h ns (source l)" and "resolvable h ns (target l)"
  shows "incident h i (resolveLink h ns l) = incident h i l"
  using refersTo_resolveEndpoint[OF assms(1,2)] refersTo_resolveEndpoint[OF assms(1,3)]
  by (simp add: incident_def)

lemma resolvable_filter:
  assumes "resolvable h ns e" and "\<not> refersTo h i e"
  shows "resolvable h (filter (\<lambda>a. node_id (h a) \<noteq> i) ns) e"
  using assms by (cases e) (auto simp: resolvable_def refersTo_def)

lemma deleteNode_Done:
  assumes wf: "wfStore s"
  shows "\<exists>s'. deleteNode s True i = Done s'
       \<and> nheap s' = nheap s
       \<and> nodes s' = filter (\<lambda>a. node_id (nheap s a) \<noteq> i) (nodes s)
       \<and> links s' = map (resolveLink (nheap s) (filter (\<lambda>a. node_id (nheap s a) \<noteq> i) (nodes s)))
                        (filter (\<lambda>l. \<not> incident (nheap s) i l) (links s))
       \<and> selectedNode s' = (if selectedNode s = Some i then None else selectedNode s)
       \<and> selectedLink s' = selectedLink s
       \<and> wfStore s'"
proof -
  let ?h = "nheap s"
  let ?ns' = "filter (\<lambda>a. node_id (?h a) \<noteq> i) (nodes s)"
  let ?kept = "filter (\<lambda>l. \<not> incident ?h i l) (links s)"
  note ids = wfStore_ids[OF wf]
  have rem: "remainingLinks ?h i (links s) = Inr ?kept"
    by (rule remainingLinks_filter[OF ids wfStore_links[OF wf]])
  let ?s1 = "s\<lparr>links := ?kept, nodes := ?ns'\<rparr>"
  let ?s2 = "if selectedNode ?s1 = Some i then ?s1\<lparr>selectedNode := None\<rparr> else ?s1"
  have wf1: "wfStore ?s1"
    using wf resolvable_filter[of ?h "nodes s" _ i]
    by (auto simp: wfStore_def incident_def)
  then have wf2: "wfStore ?s2" by (simp add: wfStore_def)
  let ?s3 = "?s2\<lparr>links := map (resolveLink (nheap ?s2) (nodes ?s2)) (links ?s2)\<rparr>"
  have "deleteNode s True i =
     (case updateVisualization ?s2 of
        Thrown e s3 \<Rightarrow> Thrown e s3
      | Done s3 \<Rightarrow> Done (showNotification (SuccessNodeDeleted i) s3))"
    by (simp add: deleteNode_def rem Let_def)
  also have "\<dots> = Done (showNotification (SuccessNodeDeleted i) ?s3)"
    by (simp only: updateVisualization_Done[OF wf2] outcome.case)
  finally have d: "deleteNode s True i = Done (showNotification (SuccessNodeDeleted i) ?s3)" .
  from wfStore_resolved[OF wf2] have w: "wfStore (showNotification (SuccessNodeDeleted i) ?s3)"
    by (simp add: wfStore_def)
  have "nheap (showNotification (SuccessNodeDeleted i) ?s3) = ?h"
    "nodes (showNotification (SuccessNodeDeleted i) ?s3) = ?ns'"
    "links (showNotification (SuccessNodeDeleted i) ?s3) = map (resolveLink ?h ?ns') ?kept"
    "selectedNode (showNotification (SuccessNodeDeleted i) ?s3) =
       (if selectedNode s = Some i then None else selectedNode s)"
    "selectedLink (showNotification (SuccessNodeDeleted i) ?s3) = selectedLink s"
    by simp_all
  with d w show ?thesis by blast
qed

lemma length_filter_distinct_id:
  "distinct (map f xs) \<Longrightarrow> i \<in> set (map f xs) \<Longrightarrow>
     Suc (length (filter (\<lambda>a. f a \<noteq> i) xs)) = length xs"
proof (induction xs)
  case Nil
  then show ?case by simp
next
  case (Cons a xs)
  show ?case
  proof (cases "f a = i")
    case True
    with Cons.prems have "i \<notin> f ` set xs" by auto
    then have "filter (\<lambda>a. f a \<noteq> i) xs = xs" by (auto simp: filter_id_conv)
    with True show ?thesis by simp
  next
    case False
    with Cons show ?thesis by auto
  qed
qed

lemma connects_resolveLink:
  assumes "\<forall>a\<in>set ns. node_id (h a) \<noteq> []"
      and "resolvable h ns (source l)" and "resolvable h ns (target l)"
  shows "connects h i j (resolveLink h ns l) = connects h i j l"
  using refersTo_resolveEndpoint[OF assms(1,2)] refersTo_resolveEndpoint[OF assms(1,3)]
  by (simp add: connects_def)

lemma find_None_connects:
  "(\<forall>l\<in>set ls. \<not> connects h a b l) \<Longrightarrow> List.find (connects h a b) ls = None"
  by (simp add: find_None_iff)

lemma find_Some_connects:
  "\<exists>l\<in>set ls. connects h a b l \<Longrightarrow> \<exists>l. List.find (connects h a b) ls = Some l"
  by (cases "List.find (connects h a b) ls") (auto simp: find_None_iff)

subsection \<open>Handlers\<close>

lemma cancelLinkCreation_fields [simp]:
  "links (cancelLinkCreation s) = links s"
  "nodes (cancelLinkCreation s) = nodes s"
  "nheap (cancelLinkCreation s) = nheap s"
  "selectedNode (cancelLinkCreation s) = selectedNode s"
  "selectedLink (cancelLinkCreation s) = selectedLink s"
  "linkCreationMode (cancelLinkCreation s) = False"
  "selectedLinkSource (cancelLinkCreation s) = None"
  "shown (cancelLinkCreation s) = shown s"
  by (simp_all add: cancelLinkCreation_def)

lemma awaitingTarget_fields:
  "linkCreationMode awaitingTarget" "selectedLinkSource awaitingTarget = Some 0"
  "nodes awaitingTarget = nodes sampleState" "links awaitingTarget = links sampleState"
  "nheap awaitingTarget = nheap sampleState" "nextRef awaitingTarget = nextRef sampleState"
  by (simp_all add: awaitingTarget_def handleNodeClick_def handleNodeClickForLinkCreation_def
      startLinkCreation_def stateOf_def showNotification_def)

lemma wfStore_awaitingTarget: "wfStore awaitingTarget"
  using wfStore_sampleState by (simp add: wfStore_def awaitingTarget_fields)

lemma handleNodeClick_normal:
  assumes "\<not> linkCreationMode s"
  shows "linkCreationMode (stateOf (handleNodeClick s d)) = False
       \<and> nodes (stateOf (handleNodeClick s d)) = nodes s
       \<and> links (stateOf (handleNodeClick s d)) = links s
       \<and> nheap (stateOf (handleNodeClick s d)) = nheap s
       \<and> selectedLink (stateOf (handleNodeClick s d)) = None
       \<and> selectedNode (stateOf (handleNodeClick s d)) =
           (if selectedNode s = Some (node_id (nheap s d)) \<or> node_id (nheap s d) = [] then None
            else Some (node_id (nheap s d)))"
  using assms
  by (auto simp: handleNodeClick_def stateOf_def clearNodeInfo_def truthyStr_def Let_def)

lemma handleLinkClick_fields:
  "linkCreationMode (stateOf (handleLinkClick s l)) = linkCreationMode s
   \<and> nodes (stateOf (handleLinkClick s l)) = nodes s
   \<and> links (stateOf (handleLinkClick s l)) = links s
   \<and> nheap (stateOf (handleLinkClick s l)) = nheap s
   \<and> selectedLink (stateOf (handleLinkClick s l)) = Some (lref l)
   \<and> selectedNode (stateOf (handleLinkClick s l)) = None"
  by (simp add: handleLinkClick_def stateOf_def Let_def split: sum.splits)

lemma gestureStep_normal:
  assumes "\<not> linkCreationMode s"
  shows "\<not> linkCreationMode (gestureStep s g)
       \<and> nodes (gestureStep s g) = nodes s \<and> links (gestureStep s g) = links s
       \<and> nheap (gestureStep s g) = nheap s
       \<and> (selectedNode (gestureStep s g) = None \<or> selectedLink (gestureStep s g) = None)"
  using handleNodeClick_normal[OF assms] handleLinkClick_fields[of s] assms
  by (cases g) (simp_all add: gestureStep_def)

lemma gestures_normal:
  assumes "\<not> linkCreationMode s"
  shows "\<not> linkCreationMode (gestures s gs)
       \<and> nodes (gestures s gs) = nodes s \<and> links (gestures s gs) = links s
       \<and> nheap (gestures s gs) = nheap s
       \<and> (gs \<noteq> [] \<or> selectedNode s = None \<or> selectedLink s = None \<longrightarrow>
            selectedNode (gestures s gs) = None \<or> selectedLink (gestures s gs) = None)"
  using assms
proof (induction gs arbitrary: s rule: rev_induct)
  case Nil
  then show ?case by (simp add: gestures_def)
next
  case (snoc g gs)
  have st: "gestures s (gs @ [g]) = gestureStep (gestures s gs) g"
    by (simp add: gestures_def)
  from snoc.IH[OF snoc.prems] have "\<not> linkCreationMode (gestures s gs)"
    "nodes (gestures s gs) = nodes s" "links (gestures s gs) = links s"
    "nheap (gestures s gs) = nheap s" by simp_all
  with gestureStep_normal[of "gestures s gs" g] show ?case unfolding st by simp
qed

lemma length_filter_distinct_le:
  "distinct (map f xs) \<Longrightarrow> length (filter (\<lambda>a. Some (f a) = v) xs) \<le> 1"
proof (induction xs)
  case Nil
  then show ?case by simp
next
  case (Cons a xs)
  show ?case
  proof (cases "Some (f a) = v")
    case True
    with Cons.prems have "\<forall>b\<in>set xs. Some (f b) \<noteq> v" by (auto simp: image_iff)
    then have "filter (\<lambda>a. Some (f a) = v) xs = []" by (simp add: filter_empty_conv)
    with True show ?thesis by simp
  next
    case False
    with Cons show ?thesis by simp
  qed
qed

subsection \<open>The adapter\<close>

lemma normalizeNode_ignores_coordinates:
  "normalizeNode rnd ct t k (n\<lparr>raw_node.x := a, raw_node.y := b\<rparr>) = normalizeNode rnd ct t k n"
  by (simp add: normalizeNode_def determineNodeType_def Let_def truthyNum_def)

section \<open>Node type inference\<close>

text \<open>
  C10. The type of a raw node is resolved in a strict priority. An explicit type (a
  non-empty string, which is what the test \<^verbatim>\<open>if (node.type)\<close> accepts) is returned as it
  is. Otherwise a defined \<^verbatim>\<open>bus_type\<close> code goes through the three-way table: 1 is slack,
  2 is pv, 3 and every unknown code is load. Otherwise the heuristic on the node's own
  \<^verbatim>\<open>active_power\<close> and \<^verbatim>\<open>voltage\<close> fields applies: positive power with a defined
  voltage is pv, positive power alone is generator, negative power and everything else
  is load.
\<close>

theorem determineNodeType_priority:
  "(\<forall>t. raw_node.type n = Some t \<and> t \<noteq> [] \<longrightarrow> determineNodeType n ct = t)
   \<and> ((raw_node.type n = None \<or> raw_node.type n = Some []) \<longrightarrow>
        (\<forall>k. bus_type n = Some k \<longrightarrow>
           determineNodeType n ct =
             (if k = 1 then ''slack'' else if k = 2 then ''pv'' else ''load'')))
   \<and> ((raw_node.type n = None \<or> raw_node.type n = Some []) \<and> bus_type n = None \<longrightarrow>
        determineNodeType n ct =
          (case raw_node.active_power n of
             None \<Rightarrow> ''load''
           | Some p \<Rightarrow>
               if 0 < p \<and> raw_node.voltage n \<noteq> None then ''pv''
               else if 0 < p then ''generator''
               else ''load''))"
  by (auto simp: determineNodeType_def truthyStr_def busTypeMapping_def gt0_def lt0_def
      split: option.splits)

theorem determineNodeType_priority_witness:
  "determineNodeType
     (rawNode\<lparr>raw_node.node_id := Some ''bus1'', raw_node.active_power := Some 100,
        raw_node.type := Some ''slack'', bus_type := Some 2\<rparr>) ''case9'' = ''slack''
   \<and> determineNodeType
     (rawNode\<lparr>raw_node.node_id := Some ''bus2'', raw_node.active_power := Some 100,
        bus_type := Some 2\<rparr>) ''case9'' = ''pv''
   \<and> determineNodeType
     (rawNode\<lparr>raw_node.node_id := Some ''bus3'', raw_node.active_power := Some 100\<rparr>)
     ''case9'' = ''generator''"
  using
    determineNodeType_priority [of
      "rawNode\<lparr>raw_node.node_id := Some ''bus1'', raw_node.active_power := Some 100,
         raw_node.type := Some ''slack'', bus_type := Some 2\<rparr>" "''case9''"]
    determineNodeType_priority [of
      "rawNode\<lparr>raw_node.node_id := Some ''bus2'', raw_node.active_power := Some 100,
         bus_type := Some 2\<rparr>" "''case9''"]
    determineNodeType_priority [of
      "rawNode\<lparr>raw_node.node_id := Some ''bus3'', raw_node.active_power := Some 100\<rparr>"
      "''case9''"]
  by (simp add: rawNode_def)

section \<open>Power-flow results: references after a full replacement\<close>

text \<open>
  C3. Let a power-flow result be well formed: every node of the result carries an id,
  and every endpoint of every link of the result refers to the id of some node of the
  result. Then, once
  \<^verbatim>\<open>calculatePowerFlow\<close> has replaced the nodes and links of the store by the result
  and \<^verbatim>\<open>updateVisualization\<close> has run, the store holds the result's node objects, and
  the source and the target of every link are references to node objects of the new node
  collection (the same address, hence the same object instance): the node object that
  \<^verbatim>\<open>find\<close> yields for the id the endpoint referred to.
\<close>

theorem calculatePowerFlow_resolves_references:
  assumes wfr: "wfResult res"
  shows "nheap (calculatePowerFlow s (Some res)) = rheap res
       \<and> nodes (calculatePowerFlow s (Some res)) = rnodes res
       \<and> length (links (calculatePowerFlow s (Some res))) = length (rlinks res)
       \<and> (\<forall>k<length (rlinks res).
            \<exists>a b. source (links (calculatePowerFlow s (Some res)) ! k) = Ref a
                \<and> target (links (calculatePowerFlow s (Some res)) ! k) = Ref b
                \<and> a \<in> set (rnodes res) \<and> b \<in> set (rnodes res)
                \<and> refersTo (rheap res) (node_id (rheap res a)) (source (rlinks res ! k))
                \<and> refersTo (rheap res) (node_id (rheap res b)) (target (rlinks res ! k))
                \<and> findNode (rheap res) (rnodes res) (node_id (rheap res a)) = Some a
                \<and> findNode (rheap res) (rnodes res) (node_id (rheap res b)) = Some b)"
proof -
  from wfr have assms: "\<forall>a\<in>set (rnodes res). node_id (rheap res a) \<noteq> []"
    "\<forall>l\<in>set (rlinks res). resolvable (rheap res) (rnodes res) (source l)
                           \<and> resolvable (rheap res) (rnodes res) (target l)"
    by (simp_all add: wfResult_def)
  let ?s1 = "s\<lparr>nheap := rheap res, nextAddr := rnextAddr res, nextRef := rnextRef res,
               nodes := rnodes res, links := rlinks res\<rparr>"
  have wf: "wfStore ?s1" using assms by (simp add: wfStore_def)
  have eq: "calculatePowerFlow s (Some res) =
      showNotification SuccessFlowDone
        (?s1\<lparr>links := map (resolveLink (rheap res) (rnodes res)) (rlinks res)\<rparr>)"
    using updateVisualization_Done[OF wf] by (simp add: calculatePowerFlow_def)
  have "\<exists>a b. resolveEndpoint (rheap res) (rnodes res) (source (rlinks res ! k)) = Ref a
          \<and> resolveEndpoint (rheap res) (rnodes res) (target (rlinks res ! k)) = Ref b
          \<and> a \<in> set (rnodes res) \<and> b \<in> set (rnodes res)
          \<and> refersTo (rheap res) (node_id (rheap res a)) (source (rlinks res ! k))
          \<and> refersTo (rheap res) (node_id (rheap res b)) (target (rlinks res ! k))
          \<and> findNode (rheap res) (rnodes res) (node_id (rheap res a)) = Some a
          \<and> findNode (rheap res) (rnodes res) (node_id (rheap res b)) = Some b"
    if "k < length (rlinks res)" for k
  proof -
    from that assms(2) have
      "resolvable (rheap res) (rnodes res) (source (rlinks res ! k))"
      "resolvable (rheap res) (rnodes res) (target (rlinks res ! k))"
      by auto
    from resolveEndpoint_resolvable[OF assms(1) this(1)]
         resolveEndpoint_resolvable[OF assms(1) this(2)]
    show ?thesis by blast
  qed
  then show ?thesis
    by (simp add: eq showNotification_def)
qed

theorem calculatePowerFlow_resolves_references_witness:
  "wfResult flowExample
   \<and> nodes (calculatePowerFlow sampleState (Some flowExample)) = [10, 11]
   \<and> map source (links (calculatePowerFlow sampleState (Some flowExample))) = [Ref 10]
   \<and> map target (links (calculatePowerFlow sampleState (Some flowExample))) = [Ref 11]"
proof -
  have h: "wfResult flowExample"
    by (simp add: wfResult_def flowExample_def resolvable_def refersTo_def)
  show ?thesis
    using h calculatePowerFlow_resolves_references [OF h, of sampleState]
    by (simp add: calculatePowerFlow_def updateVisualization_def flowExample_def
        resolveLink_def resolveEndpoint_def findNode_def drawable_def)
qed

section \<open>Power-flow results: endpoints that do not resolve\<close>

text \<open>
  C4, as the claim states it: a result with an endpoint that resolves to no node of the
  new collection would be refused, so that no link with a dangling endpoint is installed.
  On \<open>ghostResult\<close> the handler installs the result all the same: the store's nodes are
  those of the result, and its only link has the target \<^verbatim>\<open>undefined\<close>.
\<close>

theorem calculatePowerFlow_dangling_counterexample:
  "storeIds sampleState = [''bus1'', ''bus2'', ''bus3'', ''bus4'']
   \<and> storeIds (calculatePowerFlow sampleState (Some ghostResult)) = [''bus1'']
   \<and> map source (links (calculatePowerFlow sampleState (Some ghostResult))) = [Ref 10]
   \<and> map target (links (calculatePowerFlow sampleState (Some ghostResult))) = [Undefined]
   \<and> \<not> wfStore (calculatePowerFlow sampleState (Some ghostResult))
   \<and> shown (calculatePowerFlow sampleState (Some ghostResult)) = [ErrorFlowFailed]"
  by (simp add: calculatePowerFlow_state storeIds_def wfStore_def resolvable_def refersTo_def
      ghostResult_def sampleState_def useSampleData_def initialState_def
      resolveLink_def resolveEndpoint_def findNode_def drawable_def)

text \<open>
  C4, amended. \<^verbatim>\<open>calculatePowerFlow\<close> raises no resolution error and aborts nothing:
  whatever the links of the result refer to, the heap, the nodes and the links of the store
  are those of the result, the links with their endpoints rewritten by
  \<^verbatim>\<open>updateVisualization\<close>. An endpoint that is not resolvable stays so: an id string
  becomes \<^verbatim>\<open>undefined\<close>, a node object is left as it is. So a result with an endpoint
  that does not resolve leaves a store that is not well formed. The handler shows its
  notification of a failed calculation when a link of the store has an \<^verbatim>\<open>undefined\<close>
  endpoint then (the view update has thrown), and that of a finished calculation
  otherwise.
\<close>

theorem calculatePowerFlow_installs_result:
  "nheap (calculatePowerFlow s (Some res)) = rheap res
   \<and> nodes (calculatePowerFlow s (Some res)) = rnodes res
   \<and> links (calculatePowerFlow s (Some res)) =
       map (resolveLink (rheap res) (rnodes res)) (rlinks res)
   \<and> shown (calculatePowerFlow s (Some res)) =
       shown s @ [if list_all drawable (links (calculatePowerFlow s (Some res)))
                  then SuccessFlowDone else ErrorFlowFailed]
   \<and> (\<forall>l\<in>set (rlinks res).
        (\<not> resolvable (rheap res) (rnodes res) (source l) \<longrightarrow>
           \<not> resolvable (rheap res) (rnodes res) (source (resolveLink (rheap res) (rnodes res) l))
           \<and> (\<forall>i. source l = Str i \<longrightarrow> source (resolveLink (rheap res) (rnodes res) l) = Undefined)
           \<and> (\<forall>a. source l = Ref a \<longrightarrow> source (resolveLink (rheap res) (rnodes res) l) = Ref a))
        \<and> (\<not> resolvable (rheap res) (rnodes res) (target l) \<longrightarrow>
           \<not> resolvable (rheap res) (rnodes res) (target (resolveLink (rheap res) (rnodes res) l))
           \<and> (\<forall>i. target l = Str i \<longrightarrow> target (resolveLink (rheap res) (rnodes res) l) = Undefined)
           \<and> (\<forall>a. target l = Ref a \<longrightarrow> target (resolveLink (rheap res) (rnodes res) l) = Ref a)))
   \<and> ((\<exists>l\<in>set (rlinks res). \<not> resolvable (rheap res) (rnodes res) (source l)
                            \<or> \<not> resolvable (rheap res) (rnodes res) (target l)) \<longrightarrow>
        \<not> wfStore (calculatePowerFlow s (Some res)))"
proof -
  let ?h = "rheap res" and ?ns = "rnodes res"
  have a: "\<forall>l\<in>set (rlinks res).
        (\<not> resolvable ?h ?ns (source l) \<longrightarrow>
           \<not> resolvable ?h ?ns (source (resolveLink ?h ?ns l))
           \<and> (\<forall>i. source l = Str i \<longrightarrow> source (resolveLink ?h ?ns l) = Undefined)
           \<and> (\<forall>a. source l = Ref a \<longrightarrow> source (resolveLink ?h ?ns l) = Ref a))
        \<and> (\<not> resolvable ?h ?ns (target l) \<longrightarrow>
           \<not> resolvable ?h ?ns (target (resolveLink ?h ?ns l))
           \<and> (\<forall>i. target l = Str i \<longrightarrow> target (resolveLink ?h ?ns l) = Undefined)
           \<and> (\<forall>a. target l = Ref a \<longrightarrow> target (resolveLink ?h ?ns l) = Ref a))"
    using unresolvable_resolveEndpoint[of ?h ?ns] by simp
  have b: "\<not> wfStore (calculatePowerFlow s (Some res))"
    if "\<exists>l\<in>set (rlinks res). \<not> resolvable ?h ?ns (source l) \<or> \<not> resolvable ?h ?ns (target l)"
  proof -
    from that obtain l where l: "l \<in> set (rlinks res)"
      "\<not> resolvable ?h ?ns (source l) \<or> \<not> resolvable ?h ?ns (target l)" by blast
    then have "\<not> resolvable ?h ?ns (source (resolveLink ?h ?ns l))
             \<or> \<not> resolvable ?h ?ns (target (resolveLink ?h ?ns l))"
      using unresolvable_resolveEndpoint[of ?h ?ns] by auto
    moreover have "resolvable ?h ?ns (source (resolveLink ?h ?ns l))
                 \<and> resolvable ?h ?ns (target (resolveLink ?h ?ns l))"
      if wf: "wfStore (calculatePowerFlow s (Some res))"
    proof -
      have "resolveLink ?h ?ns l \<in> set (links (calculatePowerFlow s (Some res)))"
        using l(1) by (simp add: calculatePowerFlow_state)
      with wfStore_links[OF wf] show ?thesis
        by (simp only: calculatePowerFlow_state)
    qed
    ultimately show ?thesis by blast
  qed
  have c: "nheap (calculatePowerFlow s (Some res)) = ?h"
    "nodes (calculatePowerFlow s (Some res)) = ?ns"
    "links (calculatePowerFlow s (Some res)) = map (resolveLink ?h ?ns) (rlinks res)"
    "shown (calculatePowerFlow s (Some res)) =
       shown s @ [if list_all drawable (links (calculatePowerFlow s (Some res)))
                  then SuccessFlowDone else ErrorFlowFailed]"
    by (simp_all add: calculatePowerFlow_state)
  from b have b': "(\<exists>l\<in>set (rlinks res). \<not> resolvable ?h ?ns (source l)
                            \<or> \<not> resolvable ?h ?ns (target l)) \<longrightarrow>
        \<not> wfStore (calculatePowerFlow s (Some res))" by blast
  show ?thesis
    by (rule conjI[OF c(1)], rule conjI[OF c(2)], rule conjI[OF c(3)], rule conjI[OF c(4)],
        rule conjI[OF a b'])
qed

theorem calculatePowerFlow_installs_result_witness:
  "(\<exists>l\<in>set (rlinks ghostResult).
        \<not> resolvable (rheap ghostResult) (rnodes ghostResult) (source l)
      \<or> \<not> resolvable (rheap ghostResult) (rnodes ghostResult) (target l))
   \<and> nodes (calculatePowerFlow sampleState (Some ghostResult)) = [10]
   \<and> \<not> wfStore (calculatePowerFlow sampleState (Some ghostResult))"
proof -
  have h: "\<exists>l\<in>set (rlinks ghostResult).
        \<not> resolvable (rheap ghostResult) (rnodes ghostResult) (source l)
      \<or> \<not> resolvable (rheap ghostResult) (rnodes ghostResult) (target l)"
    by (simp add: ghostResult_def resolvable_def refersTo_def)
  from calculatePowerFlow_installs_result [of sampleState ghostResult] h
  show ?thesis by (simp add: ghostResult_def)
qed

section \<open>Adding a link\<close>

text \<open>
  C1, as the claim states it: \<^verbatim>\<open>addLink\<close> would fail, and leave the links unchanged,
  when a link between the two ids exists or when the two ids are equal. In the sample
  topology, whose first link connects \<^verbatim>\<open>bus1\<close> and \<^verbatim>\<open>bus2\<close>, both calls run to their
  end, append a fifth link and show the success notification.
\<close>

theorem addLink_unguarded_counterexample:
  "connects (nheap sampleState) ''bus1'' ''bus2'' (links sampleState ! 0)
   \<and> length (links sampleState) = 4
   \<and> (case addLink sampleState ''bus1'' ''bus2'' of
        Done s' \<Rightarrow> length (links s') = 5 \<and> last (shown s') = SuccessLinkAdded ''bus1'' ''bus2''
      | Thrown e s' \<Rightarrow> False)
   \<and> (case addLink sampleState ''bus1'' ''bus1'' of
        Done s' \<Rightarrow> length (links s') = 5 \<and> last (shown s') = SuccessLinkAdded ''bus1'' ''bus1''
      | Thrown e s' \<Rightarrow> False)"
  by (simp add: sampleState_def useSampleData_def initialState_def connects_def refersTo_def
      addLink_def updateVisualization_def resolveLink_def resolveEndpoint_def findNode_def
      drawable_def showNotification_def)

text \<open>
  C1, amended. \<^verbatim>\<open>addLink\<close> checks nothing (the guards against a duplicate and
  against a self-loop are in \<^verbatim>\<open>handleNodeClickForLinkCreation\<close>) and fails with neither
  error: every call appends exactly one new link object, with the default attributes,
  after the existing links, and \<^verbatim>\<open>updateVisualization\<close> rewrites the endpoints of all
  links in the same call. Each endpoint of the new link is the first node object of the
  store with the id given, and \<^verbatim>\<open>undefined\<close> when no node has that id. The call runs to
  its end and shows the success notification when no link of the store has an
  \<^verbatim>\<open>undefined\<close> endpoint then; otherwise it throws a TypeError, shows nothing, and the new
  link stays appended. In a well-formed store and for ids of nodes of the store, the call
  runs to its end, the endpoints of the new link are node objects of the store with
  these ids, the existing links refer to the ids they referred to, and the store is well
  formed again.
\<close>

theorem addLink_appends:
  "links (stateOf (addLink s a b)) =
     map (resolveLink (nheap s) (nodes s)) (links s)
     @ [\<lparr>source = (case findNode (nheap s) (nodes s) a of Some m \<Rightarrow> Ref m | None \<Rightarrow> Undefined),
         target = (case findNode (nheap s) (nodes s) b of Some m \<Rightarrow> Ref m | None \<Rightarrow> Undefined),
         resistance = 0.01, reactance = 0.1, active_power = 75, reactive_power = 30,
         lref = nextRef s\<rparr>]
   \<and> length (links (stateOf (addLink s a b))) = Suc (length (links s))
   \<and> map lref (links (stateOf (addLink s a b))) = map lref (links s) @ [nextRef s]
   \<and> nodes (stateOf (addLink s a b)) = nodes s
   \<and> nheap (stateOf (addLink s a b)) = nheap s
   \<and> addLink s a b =
       (if list_all drawable (links (stateOf (addLink s a b)))
        then Done (stateOf (addLink s a b)) else Thrown TypeError (stateOf (addLink s a b)))
   \<and> shown (stateOf (addLink s a b)) =
       shown s @ (if list_all drawable (links (stateOf (addLink s a b)))
                  then [SuccessLinkAdded a b] else [])
   \<and> (wfStore s \<and> a \<in> set (storeIds s) \<and> b \<in> set (storeIds s) \<longrightarrow>
        (\<exists>s' na nb. addLink s a b = Done s'
           \<and> shown s' = shown s @ [SuccessLinkAdded a b]
           \<and> source (last (links s')) = Ref na \<and> target (last (links s')) = Ref nb
           \<and> na \<in> set (nodes s) \<and> nb \<in> set (nodes s)
           \<and> node_id (nheap s na) = a \<and> node_id (nheap s nb) = b
           \<and> (\<forall>k<length (links s). \<forall>i.
                 refersTo (nheap s) i (source (links s' ! k)) = refersTo (nheap s) i (source (links s ! k))
               \<and> refersTo (nheap s) i (target (links s' ! k)) = refersTo (nheap s) i (target (links s ! k)))
           \<and> wfStore s'))"
proof -
  let ?h = "nheap s" and ?ns = "nodes s"
  let ?new = "\<lparr>source = Str a, target = Str b, resistance = 0.01, reactance = 0.1,
               active_power = 75, reactive_power = 30, lref = nextRef s\<rparr>"
  have r: "resolveLink ?h ?ns ?new =
      \<lparr>source = (case findNode ?h ?ns a of Some m \<Rightarrow> Ref m | None \<Rightarrow> Undefined),
       target = (case findNode ?h ?ns b of Some m \<Rightarrow> Ref m | None \<Rightarrow> Undefined),
       resistance = 0.01, reactance = 0.1, active_power = 75, reactive_power = 30,
       lref = nextRef s\<rparr>"
    by (simp add: resolveLink_def resolveEndpoint_def)
  have p1: "links (stateOf (addLink s a b)) =
     map (resolveLink ?h ?ns) (links s)
     @ [\<lparr>source = (case findNode ?h ?ns a of Some m \<Rightarrow> Ref m | None \<Rightarrow> Undefined),
         target = (case findNode ?h ?ns b of Some m \<Rightarrow> Ref m | None \<Rightarrow> Undefined),
         resistance = 0.01, reactance = 0.1, active_power = 75, reactive_power = 30,
         lref = nextRef s\<rparr>]"
    and p3: "nodes (stateOf (addLink s a b)) = nodes s"
    and p3': "nheap (stateOf (addLink s a b)) = nheap s"
    using stateOf_addLink[of s a b] unfolding r by simp_all
  from p1 have p2: "length (links (stateOf (addLink s a b))) = Suc (length (links s))" by simp
  from p1 have p2': "map lref (links (stateOf (addLink s a b))) = map lref (links s) @ [nextRef s]"
    by (simp add: comp_def)
  note o = addLink_outcome[of s a b]
  from o have o1: "addLink s a b =
       (if list_all drawable (links (stateOf (addLink s a b)))
        then Done (stateOf (addLink s a b)) else Thrown TypeError (stateOf (addLink s a b)))"
    by (rule conjunct1)
  from o have o2: "shown (stateOf (addLink s a b)) =
       shown s @ (if list_all drawable (links (stateOf (addLink s a b)))
                  then [SuccessLinkAdded a b] else [])"
    by (rule conjunct2)
  have p4: "\<exists>s' na nb. addLink s a b = Done s'
           \<and> shown s' = shown s @ [SuccessLinkAdded a b]
           \<and> source (last (links s')) = Ref na \<and> target (last (links s')) = Ref nb
           \<and> na \<in> set (nodes s) \<and> nb \<in> set (nodes s)
           \<and> node_id (nheap s na) = a \<and> node_id (nheap s nb) = b
           \<and> (\<forall>k<length (links s). \<forall>i.
                 refersTo (nheap s) i (source (links s' ! k)) = refersTo (nheap s) i (source (links s ! k))
               \<and> refersTo (nheap s) i (target (links s' ! k)) = refersTo (nheap s) i (target (links s ! k)))
           \<and> wfStore s'"
    if h: "wfStore s \<and> a \<in> set (storeIds s) \<and> b \<in> set (storeIds s)"
  proof -
    from h have wf: "wfStore s" and a: "a \<in> set (storeIds s)" and b: "b \<in> set (storeIds s)" by auto
    note ids = wfStore_ids[OF wf]
    let ?s' = "showNotification (SuccessLinkAdded a b)
       (s\<lparr>links := map (resolveLink ?h ?ns) (links s @ [?new]), nextRef := Suc (nextRef s)\<rparr>)"
    have d: "addLink s a b = Done ?s'" by (rule addLink_Done[OF wf a b])
    have sh: "shown ?s' = shown s @ [SuccessLinkAdded a b]" by simp
    from resolveEndpoint_resolvable[OF ids resolvable_Str[OF a]] obtain na where
      na: "resolveEndpoint ?h ?ns (Str a) = Ref na" "na \<in> set ?ns" "node_id (?h na) = a"
      by (auto simp: refersTo_def)
    from resolveEndpoint_resolvable[OF ids resolvable_Str[OF b]] obtain nb where
      nb: "resolveEndpoint ?h ?ns (Str b) = Ref nb" "nb \<in> set ?ns" "node_id (?h nb) = b"
      by (auto simp: refersTo_def)
    have l: "links ?s' = map (resolveLink ?h ?ns) (links s) @ [resolveLink ?h ?ns ?new]"
      by simp
    have old: "\<forall>k<length (links s). \<forall>i.
                 refersTo ?h i (source (links ?s' ! k)) = refersTo ?h i (source (links s ! k))
               \<and> refersTo ?h i (target (links ?s' ! k)) = refersTo ?h i (target (links s ! k))"
    proof (intro allI impI)
      fix k i assume k: "k < length (links s)"
      then have "links s ! k \<in> set (links s)" by simp
      with wfStore_links[OF wf] have
        r: "resolvable ?h ?ns (source (links s ! k))" "resolvable ?h ?ns (target (links s ! k))"
        by auto
      from k have "links ?s' ! k = resolveLink ?h ?ns (links s ! k)"
        unfolding l by (simp add: nth_append)
      then show "refersTo ?h i (source (links ?s' ! k)) = refersTo ?h i (source (links s ! k))
               \<and> refersTo ?h i (target (links ?s' ! k)) = refersTo ?h i (target (links s ! k))"
        using refersTo_resolveEndpoint[OF ids r(1)] refersTo_resolveEndpoint[OF ids r(2)] by simp
    qed
    have "wfStore (s\<lparr>links := links s @ [?new], nextRef := Suc (nextRef s)\<rparr>)"
      using wf resolvable_Str[OF a] resolvable_Str[OF b] by (auto simp: wfStore_def)
    from wfStore_resolved[OF this] have wf': "wfStore ?s'"
      by (simp add: wfStore_def)
    have "source (last (links ?s')) = Ref na" "target (last (links ?s')) = Ref nb"
      unfolding l using na(1) nb(1) by simp_all
    with d sh na(2,3) nb(2,3) old wf' show ?thesis by blast
  qed
  from p4 have p4': "wfStore s \<and> a \<in> set (storeIds s) \<and> b \<in> set (storeIds s) \<longrightarrow>
        (\<exists>s' na nb. addLink s a b = Done s'
           \<and> shown s' = shown s @ [SuccessLinkAdded a b]
           \<and> source (last (links s')) = Ref na \<and> target (last (links s')) = Ref nb
           \<and> na \<in> set (nodes s) \<and> nb \<in> set (nodes s)
           \<and> node_id (nheap s na) = a \<and> node_id (nheap s nb) = b
           \<and> (\<forall>k<length (links s). \<forall>i.
                 refersTo (nheap s) i (source (links s' ! k)) = refersTo (nheap s) i (source (links s ! k))
               \<and> refersTo (nheap s) i (target (links s' ! k)) = refersTo (nheap s) i (target (links s ! k)))
           \<and> wfStore s')" by blast
  show ?thesis
    by (rule conjI[OF p1], rule conjI[OF p2], rule conjI[OF p2'], rule conjI[OF p3],
        rule conjI[OF p3'], rule conjI[OF o1], rule conjI[OF o2 p4'])
qed

theorem addLink_appends_witness:
  "wfStore sampleState \<and> ''bus1'' \<in> set (storeIds sampleState)
   \<and> ''bus4'' \<in> set (storeIds sampleState)
   \<and> (\<exists>s'. addLink sampleState ''bus1'' ''bus4'' = Done s'
          \<and> length (links s') = 5
          \<and> shown s' = [SuccessLinkAdded ''bus1'' ''bus4'']
          \<and> source (last (links s')) = Ref 0 \<and> target (last (links s')) = Ref 3)
   \<and> (\<exists>s'. addLink sampleState ''bus1'' ''bus9'' = Thrown TypeError s'
          \<and> length (links s') = 5 \<and> shown s' = []
          \<and> source (last (links s')) = Ref 0 \<and> target (last (links s')) = Undefined)"
proof -
  note ev = sampleState_def useSampleData_def initialState_def
  have h: "wfStore sampleState \<and> ''bus1'' \<in> set (storeIds sampleState)
         \<and> ''bus4'' \<in> set (storeIds sampleState)"
    by (simp add: wfStore_sampleState) (simp add: ev storeIds_def)
  from addLink_appends [of sampleState "''bus1''" "''bus4''"] h
  obtain s' na nb where s': "addLink sampleState ''bus1'' ''bus4'' = Done s'"
    "shown s' = shown sampleState @ [SuccessLinkAdded ''bus1'' ''bus4'']"
    "source (last (links s')) = Ref na" "target (last (links s')) = Ref nb"
    "na \<in> set (nodes sampleState)" "nb \<in> set (nodes sampleState)"
    "node_id (nheap sampleState na) = ''bus1''" "node_id (nheap sampleState nb) = ''bus4''"
    and len: "length (links (stateOf (addLink sampleState ''bus1'' ''bus4''))) = Suc (length (links sampleState))"
    by blast
  from s'(5,7) have "na = 0" by (auto simp: ev)
  moreover from s'(6,8) have "nb = 3" by (auto simp: ev)
  moreover from len s'(1) have "length (links s') = 5" by (simp add: stateOf_def ev)
  moreover from s'(2) have "shown s' = [SuccessLinkAdded ''bus1'' ''bus4'']" by (simp add: ev)
  ultimately have g: "\<exists>s'. addLink sampleState ''bus1'' ''bus4'' = Done s'
          \<and> length (links s') = 5
          \<and> shown s' = [SuccessLinkAdded ''bus1'' ''bus4'']
          \<and> source (last (links s')) = Ref 0 \<and> target (last (links s')) = Ref 3"
    using s'(1,3,4) by simp
  let ?t = "stateOf (addLink sampleState ''bus1'' ''bus9'')"
  note u = addLink_appends [of sampleState "''bus1''" "''bus9''"]
  from u have ul: "links ?t =
     map (resolveLink (nheap sampleState) (nodes sampleState)) (links sampleState)
     @ [\<lparr>source = (case findNode (nheap sampleState) (nodes sampleState) ''bus1'' of Some m \<Rightarrow> Ref m | None \<Rightarrow> Undefined),
         target = (case findNode (nheap sampleState) (nodes sampleState) ''bus9'' of Some m \<Rightarrow> Ref m | None \<Rightarrow> Undefined),
         resistance = 0.01, reactance = 0.1, active_power = 75, reactive_power = 30,
         lref = nextRef sampleState\<rparr>]" by (rule conjunct1)
  have f: "findNode (nheap sampleState) (nodes sampleState) ''bus1'' = Some 0"
    "findNode (nheap sampleState) (nodes sampleState) ''bus9'' = None"
    by (simp_all add: findNode_def ev)
  from ul have ul': "links ?t =
     map (resolveLink (nheap sampleState) (nodes sampleState)) (links sampleState)
     @ [\<lparr>source = Ref 0, target = Undefined,
         resistance = 0.01, reactance = 0.1, active_power = 75, reactive_power = 30,
         lref = nextRef sampleState\<rparr>]"
    by (simp only: f option.case)
  have n4: "length (links sampleState) = 4" "shown sampleState = []" by (simp_all add: ev)
  from ul' have tl: "source (last (links ?t)) = Ref 0" "target (last (links ?t)) = Undefined"
    "\<not> list_all drawable (links ?t)"
    by (simp_all add: drawable_def)
  from ul' n4(1) have tn: "length (links ?t) = 5" by simp
  from u have u1: "addLink sampleState ''bus1'' ''bus9'' =
       (if list_all drawable (links ?t) then Done ?t else Thrown TypeError ?t)"
    and u2: "shown ?t = shown sampleState @
       (if list_all drawable (links ?t) then [SuccessLinkAdded ''bus1'' ''bus9''] else [])"
    by blast+
  from u1 tl(3) have t1: "addLink sampleState ''bus1'' ''bus9'' = Thrown TypeError ?t" by simp
  from u2 tl(3) n4(2) have t2: "shown ?t = []" by simp
  from t1 t2 tn tl(1,2) have g2: "\<exists>s'. addLink sampleState ''bus1'' ''bus9'' = Thrown TypeError s'
          \<and> length (links s') = 5 \<and> shown s' = []
          \<and> source (last (links s')) = Ref 0 \<and> target (last (links s')) = Undefined"
    by blast
  from h g g2 show ?thesis by blast
qed

section \<open>Deleting a node\<close>

text \<open>
  C2. In a well-formed store, for every id \<open>i\<close> of a node of the store, a confirmed
  \<^verbatim>\<open>deleteNode(i)\<close> runs to its end and removes the node with the id \<open>i\<close> and
  nothing else from the node collection (one node, when the ids are distinct), removes
  exactly the links incident to \<open>i\<close> (the link objects that stay are those that were not
  incident, in their order, with their endpoints rewritten by \<^verbatim>\<open>updateVisualization\<close>),
  clears the node selection when the node deleted was the selected one and keeps it
  otherwise, and leaves a well-formed store: every endpoint of the links that stay still
  resolves.
\<close>

theorem deleteNode_removes_node_and_incident_links:
  assumes wf: "wfStore s" and present: "i \<in> set (storeIds s)"
  shows "\<exists>s'. deleteNode s True i = Done s'
       \<and> nheap s' = nheap s
       \<and> nodes s' = filter (\<lambda>a. node_id (nheap s a) \<noteq> i) (nodes s)
       \<and> i \<notin> set (storeIds s')
       \<and> (distinct (storeIds s) \<longrightarrow> Suc (length (nodes s')) = length (nodes s))
       \<and> links s' = map (resolveLink (nheap s) (nodes s'))
                        (filter (\<lambda>l. \<not> incident (nheap s) i l) (links s))
       \<and> map lref (links s') = map lref (filter (\<lambda>l. \<not> incident (nheap s) i l) (links s))
       \<and> (\<forall>l\<in>set (links s'). \<not> incident (nheap s) i l)
       \<and> selectedNode s' = (if selectedNode s = Some i then None else selectedNode s)
       \<and> wfStore s'"
proof -
  let ?h = "nheap s"
  let ?ns' = "filter (\<lambda>a. node_id (?h a) \<noteq> i) (nodes s)"
  let ?kept = "filter (\<lambda>l. \<not> incident ?h i l) (links s)"
  from deleteNode_Done[OF wf, of i] obtain s' where
    d: "deleteNode s True i = Done s'" and h: "nheap s' = ?h" and ns: "nodes s' = ?ns'"
    and ls: "links s' = map (resolveLink ?h ?ns') ?kept"
    and sel: "selectedNode s' = (if selectedNode s = Some i then None else selectedNode s)"
    and wf': "wfStore s'" by blast
  have gone: "i \<notin> set (storeIds s')" by (auto simp: storeIds_def h ns)
  have one: "distinct (storeIds s) \<longrightarrow> Suc (length (nodes s')) = length (nodes s)"
    using present length_filter_distinct_id[of "\<lambda>a. node_id (?h a)" "nodes s" i]
    by (simp add: storeIds_def ns)
  from ls have refs: "map lref (links s') = map lref ?kept" by (simp add: comp_def)
  have ids': "\<forall>a\<in>set ?ns'. node_id (?h a) \<noteq> []" using wfStore_ids[OF wf] by simp
  have none: "\<forall>l\<in>set (links s'). \<not> incident ?h i l"
  proof
    fix l' assume "l' \<in> set (links s')"
    with ls obtain l where l: "l \<in> set (links s)" "\<not> incident ?h i l" "l' = resolveLink ?h ?ns' l"
      by auto
    from l(1) wfStore_links[OF wf] have
      "resolvable ?h (nodes s) (source l)" "resolvable ?h (nodes s) (target l)" by auto
    with l(2) have "resolvable ?h ?ns' (source l)" "resolvable ?h ?ns' (target l)"
      by (auto simp: incident_def intro: resolvable_filter)
    from incident_resolveLink[OF ids' this] l(2,3) show "\<not> incident ?h i l'" by simp
  qed
  from ls ns have ls': "links s' = map (resolveLink ?h (nodes s')) ?kept" by simp
  from d h ns gone one ls' refs none sel wf' show ?thesis by blast
qed

theorem deleteNode_removes_node_and_incident_links_witness:
  "wfStore sampleState \<and> ''bus1'' \<in> set (storeIds sampleState)
   \<and> distinct (storeIds sampleState)
   \<and> map lref (links sampleState) = [0, 1, 2, 3]
   \<and> (\<exists>s'. deleteNode sampleState True ''bus1'' = Done s'
          \<and> storeIds s' = [''bus2'', ''bus3'', ''bus4'']
          \<and> map lref (links s') = [2, 3]
          \<and> wfStore s')"
proof -
  have p: "''bus1'' \<in> set (storeIds sampleState)" "distinct (storeIds sampleState)"
    "map lref (links sampleState) = [0, 1, 2, 3]"
    by (simp_all add: sampleState_def useSampleData_def initialState_def storeIds_def)
  from deleteNode_removes_node_and_incident_links [OF wfStore_sampleState p(1)]
  obtain s' where s': "deleteNode sampleState True ''bus1'' = Done s'"
    "nheap s' = nheap sampleState"
    "nodes s' = filter (\<lambda>a. node_id (nheap sampleState a) \<noteq> ''bus1'') (nodes sampleState)"
    "map lref (links s') =
       map lref (filter (\<lambda>l. \<not> incident (nheap sampleState) ''bus1'' l) (links sampleState))"
    "wfStore s'" by blast
  from s'(2,3) have "storeIds s' = [''bus2'', ''bus3'', ''bus4'']"
    by (simp add: storeIds_def sampleState_def useSampleData_def initialState_def)
  moreover from s'(4) have "map lref (links s') = [2, 3]"
    by (simp add: incident_def refersTo_def sampleState_def useSampleData_def initialState_def)
  ultimately show ?thesis using wfStore_sampleState p s'(1,5) by simp
qed

section \<open>The link-creation gesture\<close>

text \<open>
  C8. Let link creation be on with the source node \<open>a\<close> chosen, and let the node \<open>d\<close>
  be clicked. If \<open>d\<close> has the id of \<open>a\<close>, the click shows the self-link error (it is the
  notification added to those shown) and changes nothing else: link creation still
  awaits a target for \<open>a\<close>, and the nodes and links are the same. If, in a well-formed
  store, some link connects the ids of \<open>a\<close> and \<open>d\<close> in either direction, the click shows
  the error of an existing link and changes nothing else. If, in a well-formed store of
  which \<open>a\<close> and \<open>d\<close> are nodes with different ids, no link connects the two ids, the
  click runs to its end and shows the notification of the link added, link creation is
  off and the pending source is cleared, the nodes are the same, one new link object is
  appended, its source and target are the node objects of the store with the ids of \<open>a\<close>
  and of \<open>d\<close>, it is the only link that connects the two ids, and the store is well formed
  again.
\<close>

theorem link_creation_click:
  assumes mode: "linkCreationMode s" and src: "selectedLinkSource s = Some a"
  shows "(node_id (nheap s a) = node_id (nheap s d) \<longrightarrow>
            handleNodeClick s d = Done (showNotification ErrorSelfLink s)
            \<and> shown (stateOf (handleNodeClick s d)) = shown s @ [ErrorSelfLink]
            \<and> links (stateOf (handleNodeClick s d)) = links s
            \<and> nodes (stateOf (handleNodeClick s d)) = nodes s
            \<and> linkCreationMode (stateOf (handleNodeClick s d))
            \<and> selectedLinkSource (stateOf (handleNodeClick s d)) = Some a)
       \<and> (wfStore s \<and> node_id (nheap s a) \<noteq> node_id (nheap s d)
            \<and> (\<exists>l\<in>set (links s). connects (nheap s) (node_id (nheap s a)) (node_id (nheap s d)) l) \<longrightarrow>
            handleNodeClick s d = Done (showNotification ErrorLinkExists s)
            \<and> shown (stateOf (handleNodeClick s d)) = shown s @ [ErrorLinkExists]
            \<and> links (stateOf (handleNodeClick s d)) = links s
            \<and> nodes (stateOf (handleNodeClick s d)) = nodes s
            \<and> linkCreationMode (stateOf (handleNodeClick s d))
            \<and> selectedLinkSource (stateOf (handleNodeClick s d)) = Some a)
       \<and> (wfStore s \<and> a \<in> set (nodes s) \<and> d \<in> set (nodes s)
            \<and> node_id (nheap s a) \<noteq> node_id (nheap s d)
            \<and> (\<forall>l\<in>set (links s). \<not> connects (nheap s) (node_id (nheap s a)) (node_id (nheap s d)) l) \<longrightarrow>
            (\<exists>s' na nb. handleNodeClick s d = Done s'
               \<and> shown s' = shown s @ [SuccessLinkAdded (node_id (nheap s a)) (node_id (nheap s d))]
               \<and> \<not> linkCreationMode s' \<and> selectedLinkSource s' = None
               \<and> nheap s' = nheap s \<and> nodes s' = nodes s
               \<and> map lref (links s') = map lref (links s) @ [nextRef s]
               \<and> source (last (links s')) = Ref na \<and> target (last (links s')) = Ref nb
               \<and> na \<in> set (nodes s) \<and> nb \<in> set (nodes s)
               \<and> node_id (nheap s na) = node_id (nheap s a)
               \<and> node_id (nheap s nb) = node_id (nheap s d)
               \<and> length (filter (connects (nheap s) (node_id (nheap s a)) (node_id (nheap s d)))
                    (links s')) = 1
               \<and> wfStore s'))"
proof -
  let ?h = "nheap s" and ?ns = "nodes s"
  let ?A = "node_id (nheap s a)" and ?B = "node_id (nheap s d)"
  have p1: "?A = ?B \<longrightarrow>
            handleNodeClick s d = Done (showNotification ErrorSelfLink s)
            \<and> shown (stateOf (handleNodeClick s d)) = shown s @ [ErrorSelfLink]
            \<and> links (stateOf (handleNodeClick s d)) = links s
            \<and> nodes (stateOf (handleNodeClick s d)) = nodes s
            \<and> linkCreationMode (stateOf (handleNodeClick s d))
            \<and> selectedLinkSource (stateOf (handleNodeClick s d)) = Some a"
    using mode src
    by (simp add: handleNodeClick_def handleNodeClickForLinkCreation_def stateOf_def)
  have p2: "handleNodeClick s d = Done (showNotification ErrorLinkExists s)
            \<and> shown (stateOf (handleNodeClick s d)) = shown s @ [ErrorLinkExists]
            \<and> links (stateOf (handleNodeClick s d)) = links s
            \<and> nodes (stateOf (handleNodeClick s d)) = nodes s
            \<and> linkCreationMode (stateOf (handleNodeClick s d))
            \<and> selectedLinkSource (stateOf (handleNodeClick s d)) = Some a"
    if h: "wfStore s \<and> ?A \<noteq> ?B \<and> (\<exists>l\<in>set (links s). connects ?h ?A ?B l)"
  proof -
    from h have wf: "wfStore s" by simp
    from h find_Some_connects[of "links s" ?h ?A ?B] obtain l where
      "List.find (connects ?h ?A ?B) (links s) = Some l" by blast
    with existingLink_find[OF wfStore_ids[OF wf] wfStore_links[OF wf], of ?A ?B]
    have "existingLink ?h ?A ?B (links s) = Inr (Some l)" by simp
    with h mode src show ?thesis
      by (simp add: handleNodeClick_def handleNodeClickForLinkCreation_def stateOf_def)
  qed
  have p3: "\<exists>s' na nb. handleNodeClick s d = Done s'
               \<and> shown s' = shown s @ [SuccessLinkAdded (node_id (nheap s a)) (node_id (nheap s d))]
               \<and> \<not> linkCreationMode s' \<and> selectedLinkSource s' = None
               \<and> nheap s' = nheap s \<and> nodes s' = nodes s
               \<and> map lref (links s') = map lref (links s) @ [nextRef s]
               \<and> source (last (links s')) = Ref na \<and> target (last (links s')) = Ref nb
               \<and> na \<in> set (nodes s) \<and> nb \<in> set (nodes s)
               \<and> node_id (nheap s na) = ?A \<and> node_id (nheap s nb) = ?B
               \<and> length (filter (connects ?h ?A ?B) (links s')) = 1
               \<and> wfStore s'"
    if h: "wfStore s \<and> a \<in> set ?ns \<and> d \<in> set ?ns \<and> ?A \<noteq> ?B
           \<and> (\<forall>l\<in>set (links s). \<not> connects ?h ?A ?B l)"
  proof -
    from h have wf: "wfStore s" and neq: "?A \<noteq> ?B"
      and none: "\<forall>l\<in>set (links s). \<not> connects ?h ?A ?B l" by simp_all
    note ids = wfStore_ids[OF wf]
    from h have A: "?A \<in> set (storeIds s)" and B: "?B \<in> set (storeIds s)"
      by (auto simp: storeIds_def)
    let ?new = "\<lparr>source = Str ?A, target = Str ?B, resistance = 0.01, reactance = 0.1,
               active_power = 75, reactive_power = 30, lref = nextRef s\<rparr>"
    let ?s1 = "showNotification (SuccessLinkAdded ?A ?B)
       (s\<lparr>links := map (resolveLink ?h ?ns) (links s @ [?new]), nextRef := Suc (nextRef s)\<rparr>)"
    have ex: "existingLink ?h ?A ?B (links s) = Inr None"
      using existingLink_find[OF ids wfStore_links[OF wf], of ?A ?B]
        find_None_connects[OF none] by simp
    have add: "addLink s ?A ?B = Done ?s1" by (rule addLink_Done[OF wf A B])
    have d: "handleNodeClick s d = Done (cancelLinkCreation ?s1)"
      using mode src neq ex add
      by (simp add: handleNodeClick_def handleNodeClickForLinkCreation_def)
    from resolveEndpoint_resolvable[OF ids resolvable_Str[OF A]] obtain na where
      na: "resolveEndpoint ?h ?ns (Str ?A) = Ref na" "na \<in> set ?ns" "node_id (?h na) = ?A"
      by (auto simp: refersTo_def)
    from resolveEndpoint_resolvable[OF ids resolvable_Str[OF B]] obtain nb where
      nb: "resolveEndpoint ?h ?ns (Str ?B) = Ref nb" "nb \<in> set ?ns" "node_id (?h nb) = ?B"
      by (auto simp: refersTo_def)
    have l: "links (cancelLinkCreation ?s1) =
        map (resolveLink ?h ?ns) (links s) @ [resolveLink ?h ?ns ?new]"
      by simp
    have old: "filter (connects ?h ?A ?B) (map (resolveLink ?h ?ns) (links s)) = []"
    proof -
      have "\<not> connects ?h ?A ?B (resolveLink ?h ?ns l)" if "l \<in> set (links s)" for l
      proof -
        from that wfStore_links[OF wf] have
          "resolvable ?h ?ns (source l)" "resolvable ?h ?ns (target l)" by auto
        from connects_resolveLink[OF ids this] none that show ?thesis by simp
      qed
      then show ?thesis by (auto simp: filter_empty_conv)
    qed
    have new: "connects ?h ?A ?B (resolveLink ?h ?ns ?new)"
      using na nb by (simp add: connects_def refersTo_def)
    have cnt: "length (filter (connects ?h ?A ?B) (links (cancelLinkCreation ?s1))) = 1"
      unfolding l using old new by simp
    have "wfStore (s\<lparr>links := links s @ [?new], nextRef := Suc (nextRef s)\<rparr>)"
      using wf resolvable_Str[OF A] resolvable_Str[OF B] by (auto simp: wfStore_def)
    from wfStore_resolved[OF this] have wf': "wfStore (cancelLinkCreation ?s1)"
      by (simp add: wfStore_def)
    have e: "source (last (links (cancelLinkCreation ?s1))) = Ref na"
      "target (last (links (cancelLinkCreation ?s1))) = Ref nb"
      unfolding l using na(1) nb(1) by simp_all
    have sh: "shown (cancelLinkCreation ?s1) = shown s @ [SuccessLinkAdded ?A ?B]" by simp
    have f: "\<not> linkCreationMode (cancelLinkCreation ?s1)"
      "selectedLinkSource (cancelLinkCreation ?s1) = None"
      "nheap (cancelLinkCreation ?s1) = ?h" "nodes (cancelLinkCreation ?s1) = ?ns"
      "map lref (links (cancelLinkCreation ?s1)) = map lref (links s) @ [nextRef s]"
      by (simp_all add: comp_def)
    from d sh f e na(2,3) nb(2,3) cnt wf' show ?thesis by blast
  qed
  from p2 p3 p1 show ?thesis by blast
qed

theorem link_creation_click_witness:
  "linkCreationMode awaitingTarget \<and> selectedLinkSource awaitingTarget = Some 0
   \<and> shown awaitingTarget = [InfoStartLinkCreation, InfoSourceSelected ''bus1'']
   \<and> handleNodeClick awaitingTarget 0 = Done (showNotification ErrorSelfLink awaitingTarget)
   \<and> shown (stateOf (handleNodeClick awaitingTarget 0)) =
       [InfoStartLinkCreation, InfoSourceSelected ''bus1'', ErrorSelfLink]
   \<and> map lref (links (stateOf (handleNodeClick awaitingTarget 0))) = [0, 1, 2, 3]
   \<and> handleNodeClick awaitingTarget 1 = Done (showNotification ErrorLinkExists awaitingTarget)
   \<and> shown (stateOf (handleNodeClick awaitingTarget 1)) =
       [InfoStartLinkCreation, InfoSourceSelected ''bus1'', ErrorLinkExists]
   \<and> map lref (links (stateOf (handleNodeClick awaitingTarget 1))) = [0, 1, 2, 3]
   \<and> (\<exists>s'. handleNodeClick awaitingTarget 3 = Done s'
          \<and> shown s' = [InfoStartLinkCreation, InfoSourceSelected ''bus1'',
                         SuccessLinkAdded ''bus1'' ''bus4'']
          \<and> \<not> linkCreationMode s' \<and> selectedLinkSource s' = None
          \<and> map lref (links s') = [0, 1, 2, 3, 4]
          \<and> source (last (links s')) = Ref 0 \<and> target (last (links s')) = Ref 3)"
proof -
  note f = awaitingTarget_fields
  note ev = sampleState_def useSampleData_def initialState_def
  note t = link_creation_click [OF f(1) f(2)]
  have sh: "shown awaitingTarget = [InfoStartLinkCreation, InfoSourceSelected ''bus1'']"
    by (simp add: awaitingTarget_def handleNodeClick_def handleNodeClickForLinkCreation_def
        startLinkCreation_def stateOf_def ev)
  have lr: "map lref (links awaitingTarget) = [0, 1, 2, 3]" by (simp add: f ev)
  have i: "node_id (nheap awaitingTarget 0) = ''bus1''" "node_id (nheap awaitingTarget 3) = ''bus4''"
    by (simp_all add: f ev)
  from t [of 0] have c1:
    "handleNodeClick awaitingTarget 0 = Done (showNotification ErrorSelfLink awaitingTarget)"
    "shown (stateOf (handleNodeClick awaitingTarget 0)) = shown awaitingTarget @ [ErrorSelfLink]"
    "links (stateOf (handleNodeClick awaitingTarget 0)) = links awaitingTarget"
    by blast+
  have "wfStore awaitingTarget
      \<and> node_id (nheap awaitingTarget 0) \<noteq> node_id (nheap awaitingTarget 1)
      \<and> (\<exists>l\<in>set (links awaitingTarget).
            connects (nheap awaitingTarget) (node_id (nheap awaitingTarget 0))
              (node_id (nheap awaitingTarget 1)) l)"
    by (simp add: wfStore_awaitingTarget) (simp add: f ev connects_def refersTo_def)
  with t [of 1] have c2:
    "handleNodeClick awaitingTarget 1 = Done (showNotification ErrorLinkExists awaitingTarget)"
    "shown (stateOf (handleNodeClick awaitingTarget 1)) = shown awaitingTarget @ [ErrorLinkExists]"
    "links (stateOf (handleNodeClick awaitingTarget 1)) = links awaitingTarget"
    by blast+
  have "wfStore awaitingTarget \<and> 0 \<in> set (nodes awaitingTarget) \<and> 3 \<in> set (nodes awaitingTarget)
      \<and> node_id (nheap awaitingTarget 0) \<noteq> node_id (nheap awaitingTarget 3)
      \<and> (\<forall>l\<in>set (links awaitingTarget).
            \<not> connects (nheap awaitingTarget) (node_id (nheap awaitingTarget 0))
              (node_id (nheap awaitingTarget 3)) l)"
    by (simp add: wfStore_awaitingTarget) (simp add: f ev connects_def refersTo_def)
  with t [of 3] obtain s' na nb where s': "handleNodeClick awaitingTarget 3 = Done s'"
    "shown s' = shown awaitingTarget @
       [SuccessLinkAdded (node_id (nheap awaitingTarget 0)) (node_id (nheap awaitingTarget 3))]"
    "\<not> linkCreationMode s'" "selectedLinkSource s' = None"
    "map lref (links s') = map lref (links awaitingTarget) @ [nextRef awaitingTarget]"
    "source (last (links s')) = Ref na" "target (last (links s')) = Ref nb"
    "na \<in> set (nodes awaitingTarget)" "nb \<in> set (nodes awaitingTarget)"
    "node_id (nheap awaitingTarget na) = node_id (nheap awaitingTarget 0)"
    "node_id (nheap awaitingTarget nb) = node_id (nheap awaitingTarget 3)"
    by blast
  from s'(8,10) have "na = 0" by (auto simp: f ev)
  moreover from s'(9,11) have "nb = 3" by (auto simp: f ev)
  moreover from s'(5) have "map lref (links s') = [0, 1, 2, 3, 4]" by (simp add: f ev)
  moreover from s'(2) have "shown s' = [InfoStartLinkCreation, InfoSourceSelected ''bus1'',
                         SuccessLinkAdded ''bus1'' ''bus4'']"
    by (simp only: sh i) simp
  ultimately have g: "\<exists>s'. handleNodeClick awaitingTarget 3 = Done s'
          \<and> shown s' = [InfoStartLinkCreation, InfoSourceSelected ''bus1'',
                         SuccessLinkAdded ''bus1'' ''bus4'']
          \<and> \<not> linkCreationMode s' \<and> selectedLinkSource s' = None
          \<and> map lref (links s') = [0, 1, 2, 3, 4]
          \<and> source (last (links s')) = Ref 0 \<and> target (last (links s')) = Ref 3"
    using s'(1,3,4,6,7) by simp
  from c1(2) sh have d1: "shown (stateOf (handleNodeClick awaitingTarget 0)) =
       [InfoStartLinkCreation, InfoSourceSelected ''bus1'', ErrorSelfLink]" by simp
  from c2(2) sh have d2: "shown (stateOf (handleNodeClick awaitingTarget 1)) =
       [InfoStartLinkCreation, InfoSourceSelected ''bus1'', ErrorLinkExists]" by simp
  from c1(3) lr have e1: "map lref (links (stateOf (handleNodeClick awaitingTarget 0))) = [0, 1, 2, 3]"
    by simp
  from c2(3) lr have e2: "map lref (links (stateOf (handleNodeClick awaitingTarget 1))) = [0, 1, 2, 3]"
    by simp
  from f(1,2) sh c1(1) d1 e1 c2(1) d2 e2 g show ?thesis by blast
qed

section \<open>Selection\<close>

text \<open>
  C9. Outside link creation, after every sequence of clicks on nodes and on links that
  is not empty (and after the empty one, if it held before), the node selection or the
  link selection is empty: a node and a link are never selected together. The clicks
  leave link creation off and the nodes and links as they are. The selected node is one
  id and the selected link one link object, so at most one node is marked when the ids
  of the store are distinct, and at most one link when the link objects of the store are.
  A click on a node clears the link selection; it clears the node selection when the
  node is the selected one, and selects the node otherwise. A click on a link clears the
  node selection and selects that link.
\<close>

theorem selection_exclusive:
  assumes normal: "\<not> linkCreationMode s"
  shows "(gs \<noteq> [] \<or> selectedNode s = None \<or> selectedLink s = None \<longrightarrow>
            selectedNode (gestures s gs) = None \<or> selectedLink (gestures s gs) = None)
       \<and> \<not> linkCreationMode (gestures s gs)
       \<and> nodes (gestures s gs) = nodes s \<and> links (gestures s gs) = links s
       \<and> (distinct (storeIds s) \<longrightarrow> length (markedNodes (gestures s gs)) \<le> 1)
       \<and> (distinct (map lref (links s)) \<longrightarrow> length (markedLinks (gestures s gs)) \<le> 1)
       \<and> selectedLink (gestureStep s (NodeClick d)) = None
       \<and> (selectedNode s = Some (node_id (nheap s d)) \<longrightarrow>
            selectedNode (gestureStep s (NodeClick d)) = None)
       \<and> (selectedNode s \<noteq> Some (node_id (nheap s d)) \<and> node_id (nheap s d) \<noteq> [] \<longrightarrow>
            selectedNode (gestureStep s (NodeClick d)) = Some (node_id (nheap s d)))
       \<and> selectedNode (gestureStep s (LinkClick l)) = None
       \<and> selectedLink (gestureStep s (LinkClick l)) = Some (lref l)"
proof -
  note g = gestures_normal[OF normal, of gs]
  have mn: "distinct (storeIds s) \<longrightarrow> length (markedNodes (gestures s gs)) \<le> 1"
    using g length_filter_distinct_le[of "\<lambda>a. node_id (nheap s a)" "nodes s" "selectedNode (gestures s gs)"]
    by (simp add: markedNodes_def storeIds_def)
  have ml: "distinct (map lref (links s)) \<longrightarrow> length (markedLinks (gestures s gs)) \<le> 1"
    using g length_filter_distinct_le[of lref "links s" "selectedLink (gestures s gs)"]
    by (simp add: markedLinks_def)
  have nc: "selectedLink (gestureStep s (NodeClick d)) = None"
    "selectedNode s = Some (node_id (nheap s d)) \<longrightarrow>
            selectedNode (gestureStep s (NodeClick d)) = None"
    "selectedNode s \<noteq> Some (node_id (nheap s d)) \<and> node_id (nheap s d) \<noteq> [] \<longrightarrow>
            selectedNode (gestureStep s (NodeClick d)) = Some (node_id (nheap s d))"
    using handleNodeClick_normal[OF normal, of d] by (simp_all add: gestureStep_def)
  have lc: "selectedNode (gestureStep s (LinkClick l)) = None"
    "selectedLink (gestureStep s (LinkClick l)) = Some (lref l)"
    using handleLinkClick_fields[of s l] by (simp_all add: gestureStep_def)
  from g have g1: "gs \<noteq> [] \<or> selectedNode s = None \<or> selectedLink s = None \<longrightarrow>
            selectedNode (gestures s gs) = None \<or> selectedLink (gestures s gs) = None"
    and g2: "\<not> linkCreationMode (gestures s gs)"
    and g3: "nodes (gestures s gs) = nodes s" and g4: "links (gestures s gs) = links s"
    by simp_all
  show ?thesis
    by (rule conjI[OF g1], rule conjI[OF g2], rule conjI[OF g3], rule conjI[OF g4],
        rule conjI[OF mn], rule conjI[OF ml], rule conjI[OF nc(1)], rule conjI[OF nc(2)],
        rule conjI[OF nc(3)], rule conjI[OF lc(1) lc(2)])
qed

theorem selection_exclusive_witness:
  "\<not> linkCreationMode sampleState
   \<and> distinct (storeIds sampleState) \<and> distinct (map lref (links sampleState))
   \<and> selectedNode (gestures sampleState [NodeClick 0, LinkClick (links sampleState ! 1)]) = None
   \<and> selectedLink (gestures sampleState [NodeClick 0, LinkClick (links sampleState ! 1)]) = Some 1
   \<and> length (markedNodes (gestures sampleState [NodeClick 0, LinkClick (links sampleState ! 1)])) \<le> 1
   \<and> length (markedLinks (gestures sampleState [NodeClick 0, LinkClick (links sampleState ! 1)])) \<le> 1
   \<and> selectedNode (gestureStep sampleState (NodeClick 0)) = Some ''bus1''
   \<and> selectedLink (gestureStep sampleState (NodeClick 0)) = None
   \<and> selectedNode (gestureStep (gestureStep sampleState (NodeClick 0)) (NodeClick 0)) = None"
proof -
  note ev = sampleState_def useSampleData_def initialState_def
  let ?s1 = "gestureStep sampleState (NodeClick 0)"
  have h: "\<not> linkCreationMode sampleState" by (simp add: ev)
  have d: "distinct (storeIds sampleState)" "distinct (map lref (links sampleState))"
    by (simp_all add: ev storeIds_def)
  have n: "selectedNode sampleState \<noteq> Some (node_id (nheap sampleState 0))
           \<and> node_id (nheap sampleState 0) \<noteq> []"
    by (simp add: ev)
  have i: "node_id (nheap sampleState 0) = ''bus1''" "lref (links sampleState ! 1) = 1"
    by (simp_all add: ev)
  have c: "selectedNode (gestures sampleState [NodeClick 0, LinkClick (links sampleState ! 1)]) = None"
    "selectedLink (gestures sampleState [NodeClick 0, LinkClick (links sampleState ! 1)]) = Some 1"
    using handleLinkClick_fields[of ?s1 "links sampleState ! 1"] i(2)
    by (simp_all add: gestures_def gestureStep_def)
  note t = selection_exclusive [OF h,
      of "[NodeClick 0, LinkClick (links sampleState ! 1)]" 0 "links sampleState ! 1"]
  from t n i have s1: "selectedNode ?s1 = Some ''bus1''" by simp
  from gestureStep_normal[OF h, of "NodeClick 0"] have h1: "\<not> linkCreationMode ?s1"
    and hp: "nheap ?s1 = nheap sampleState" by simp_all
  from s1 i(1) hp have "selectedNode ?s1 = Some (node_id (nheap ?s1 0))" by simp
  with selection_exclusive [OF h1, of "[]" 0 "links sampleState ! 1"]
  have off: "selectedNode (gestureStep ?s1 (NodeClick 0)) = None" by blast
  from t d n i c h off show ?thesis by simp
qed

section \<open>Synthesized node ids\<close>

text \<open>
  C7. The claim is that adding and deleting nodes keeps the ids of the store pairwise
  distinct, the id that \<^verbatim>\<open>addNode\<close> synthesizes being new. \<^verbatim>\<open>addNode\<close> numbers the
  new node by the length of the node array plus one, so after a deletion a number comes
  back: on the sample topology, adding two load nodes (\<^verbatim>\<open>load5\<close>, \<^verbatim>\<open>load6\<close>),
  deleting \<^verbatim>\<open>load5\<close> and adding a third load node gives a second node \<^verbatim>\<open>load6\<close>.
\<close>

theorem addNode_duplicate_id:
  "distinct (storeIds sampleState)
   \<and> storeIds (stateOf (addNode sampleState Load 0 0))
       = [''bus1'', ''bus2'', ''bus3'', ''bus4'', ''load5'']
   \<and> storeIds duplicateIdRun
       = [''bus1'', ''bus2'', ''bus3'', ''bus4'', ''load6'', ''load6'']
   \<and> \<not> distinct (storeIds duplicateIdRun)"
  by code_simp

section \<open>Conversion of a canonical payload\<close>

text \<open>
  C5. The claim is that a node which carries both coordinates keeps them through
  \<^verbatim>\<open>convertData\<close>. The normalized node is built without the coordinates of the raw
  node, and the test of line 65 reads the normalized node, so coordinates are synthesized
  for every node: the node \<^verbatim>\<open>bus1\<close> of \<open>canonicalPayload\<close>, which arrives at (10, 20),
  leaves at (100, 150), its place in the layout of \<^verbatim>\<open>case9\<close>.
\<close>

theorem convertData_discards_coordinates:
  "validateData canonicalPayload
   \<and> map raw_node.x (payload.nodes canonicalPayload) = [Some 10]
   \<and> map raw_node.y (payload.nodes canonicalPayload) = [Some 20]
   \<and> (case convertData (\<lambda>k. []) canonicalPayload of
        Inl e \<Rightarrow> False
      | Inr c \<Rightarrow> map node.node_id (converted.nodes c) = [''bus1'']
               \<and> map node.x (converted.nodes c) = [100]
               \<and> map node.y (converted.nodes c) = [150])"
  by (simp add: canonicalPayload_def rawNode_def convertData_def validateData_def
      detectCaseType_def normalizeNodes_def normalizeNode_def generateNodeCoordinates_def
      predefinedLayouts_def truthyStr_def truthyNum_def stringOr_def Let_def)

section \<open>Defaults of numeric fields\<close>

text \<open>
  C6. The claim is that a numeric field that is present, also with the value 0, is
  carried through, and that defaults fill the missing fields only. The defaults are
  applied with \<^verbatim>\<open>||\<close>, which takes 0 for a missing value: in \<open>zeroPayload\<close> the node
  that arrives with voltage 0 leaves with voltage 1, and the link that arrives with
  resistance 0 leaves with resistance 0.01, while its reactance 0.0576 is kept.
\<close>

theorem normalize_replaces_zero:
  "validateData zeroPayload
   \<and> map raw_node.voltage (payload.nodes zeroPayload) = [Some 0, Some 1]
   \<and> map raw_link.resistance (payload.links zeroPayload) = [Some 0]
   \<and> (case convertData (\<lambda>k. []) zeroPayload of
        Inl e \<Rightarrow> False
      | Inr c \<Rightarrow> map node.voltage (converted.nodes c) = [1, 1]
               \<and> map link.resistance (converted.links c) = [1 / 100]
               \<and> map link.reactance (converted.links c) = [576 / 10000])"
  by (simp add: zeroPayload_def rawNode_def rawLink_def convertData_def validateData_def
      detectCaseType_def normalizeNodes_def normalizeNode_def normalizeLinks_def
      normalizeLink_def truthyStr_def truthyNum_def orDefault_def orNum_def stringOr_def
      upt_rec Let_def)

end
